theory Spec2Isabelle
  imports Complex_Main "HOL-Library.List_Lexorder"
begin

section \<open>Python values\<close>

text \<open>
  A Python \<open>str\<close> is a sequence of Unicode code points; it is modelled as a list of
  natural numbers, so that \<open>len\<close> is \<open>length\<close> and the characters beyond ASCII that the
  source mentions (for instance the euro sign, code point 8364) are ordinary elements.
  \<open>str\<close> turns an ASCII literal into such a sequence.
\<close>

type_synonym ustr = "nat list"

definition str :: "string \<Rightarrow> ustr" where
  "str s = map of_char s"

text \<open>Truthiness of an \<open>Optional[str]\<close>: \<open>None\<close> and the empty string are falsy.\<close>

definition truthy :: "ustr option \<Rightarrow> bool" where
  "truthy v = (case v of None \<Rightarrow> False | Some s \<Rightarrow> s \<noteq> [])"

text \<open>Python's \<open>a or b\<close> on two \<open>Optional[str]\<close> values.\<close>

definition py_or :: "ustr option \<Rightarrow> ustr option \<Rightarrow> ustr option" where
  "py_or a b = (if truthy a then a else b)"

text \<open>The exceptions that the modelled code can raise.\<close>

datatype error =
    IntegrityError
  | ValueError
  | IndexError
  | FetchError
  | ParserError

section \<open>The visit and session store (\<open>scraper/state_manager.py\<close>)\<close>

text \<open>
  The three SQLite tables are lists of rows in insertion order. A column that may hold
  \<open>NULL\<close> is an \<open>option\<close>. \<open>CURRENT_TIMESTAMP\<close> is read from a clock that every operation
  receives as the argument \<open>now\<close>.
\<close>

record visit_row =
  url_hash :: ustr
  url :: ustr
  session_id :: "ustr option"
  visited_at :: nat
  status :: ustr

record session_row =
  sess_id :: ustr
  start_url :: ustr
  started_at :: nat
  completed_at :: "nat option"
  sess_status :: ustr
  metadata :: "ustr option"

record item_row =
  item_id :: nat
  item_session :: "ustr option"
  item_url :: ustr
  item_data :: ustr
  scraped_at :: nat

text \<open>
  \<open>item_seq\<close> is the \<open>AUTOINCREMENT\<close> counter of \<open>scraped_items\<close>: the largest id ever
  handed out, which deleting rows does not lower.
\<close>

record database =
  visited_urls :: "visit_row list"
  sessions :: "session_row list"
  scraped_items :: "item_row list"
  item_seq :: nat

text \<open>
  A \<open>StateManager\<close> object: the database behind \<open>db_path\<close> and the attribute
  \<open>self.session_id\<close>.
\<close>

record state_manager =
  db :: database
  self_session_id :: "ustr option"

definition empty_db :: database where
  "empty_db = \<lparr>visited_urls = [], sessions = [], scraped_items = [], item_seq = 0\<rparr>"

text \<open>
  \<open>StateManager.__init__\<close>: \<open>_init_db\<close> creates the tables only when they do not exist,
  so an existing database keeps its rows; no session is current.
\<close>

definition new_manager :: "database \<Rightarrow> state_manager" where
  "new_manager d = \<lparr>db = d, self_session_id = None\<rparr>"

subsection \<open>The SQL statements\<close>

text \<open>
  \<open>INSERT INTO visited_urls\<close>: \<open>url_hash\<close> alone is the \<open>PRIMARY KEY\<close> of the table, so
  the insertion raises \<open>IntegrityError\<close> when a row with that hash is present, whatever
  its session.
\<close>

definition insert_visit :: "visit_row \<Rightarrow> database \<Rightarrow> error + database" where
  "insert_visit r d =
     (if url_hash r \<in> set (map url_hash (visited_urls d)) then Inl IntegrityError
      else Inr (d\<lparr>visited_urls := visited_urls d @ [r]\<rparr>))"

text \<open>\<open>UPDATE visited_urls SET status = ?, visited_at = CURRENT_TIMESTAMP WHERE url_hash = ?\<close>\<close>

definition update_visit :: "ustr \<Rightarrow> ustr \<Rightarrow> nat \<Rightarrow> database \<Rightarrow> database" where
  "update_visit uh st now d =
     d\<lparr>visited_urls :=
         map (\<lambda>r. if url_hash r = uh then r\<lparr>status := st, visited_at := now\<rparr> else r)
           (visited_urls d)\<rparr>"

text \<open>
  \<open>INSERT INTO sessions (session_id, start_url, metadata)\<close>: \<open>session_id\<close> is the primary
  key; \<open>started_at\<close> and \<open>status\<close> take their defaults, \<open>completed_at\<close> is \<open>NULL\<close>.
\<close>

definition insert_session :: "ustr \<Rightarrow> ustr \<Rightarrow> ustr option \<Rightarrow> nat \<Rightarrow> database \<Rightarrow> error + database" where
  "insert_session sid start meta now d =
     (if sid \<in> set (map sess_id (sessions d)) then Inl IntegrityError
      else Inr (d\<lparr>sessions := sessions d @
             [\<lparr>sess_id = sid, start_url = start, started_at = now, completed_at = None,
               sess_status = str ''active'', metadata = meta\<rparr>]\<rparr>))"

text \<open>
  \<open>UPDATE sessions SET completed_at = CURRENT_TIMESTAMP, status = 'completed'
  WHERE session_id = ?\<close>: the statement has no condition on the present status.
\<close>

definition update_session_completed :: "ustr \<Rightarrow> nat \<Rightarrow> database \<Rightarrow> database" where
  "update_session_completed sid now d =
     d\<lparr>sessions :=
         map (\<lambda>r. if sess_id r = sid
                  then r\<lparr>completed_at := Some now, sess_status := str ''completed''\<rparr>
                  else r)
           (sessions d)\<rparr>"

subsection \<open>The operations of \<open>StateManager\<close>\<close>

text \<open>
  \<open>_hash_url\<close> is \<open>hashlib.md5(url.encode('utf-8')).hexdigest()\<close>. The digest function
  belongs to the Python library; the operations take it as the argument \<open>hash_url\<close>.
\<close>

text \<open>
  \<open>start_session\<close>: \<open>stamp\<close> is \<open>datetime.now().strftime('%Y%m%d_%H%M%S')\<close>, \<open>meta\<close> is
  \<open>json.dumps(metadata)\<close> for a truthy \<open>metadata\<close> and \<open>None\<close> otherwise. The attribute
  \<open>self.session_id\<close> is assigned before the insertion, so it changes even when the
  insertion raises.
\<close>

definition start_session ::
  "ustr \<Rightarrow> ustr \<Rightarrow> ustr option \<Rightarrow> nat \<Rightarrow> state_manager \<Rightarrow> (error + ustr) \<times> state_manager" where
  "start_session stamp start meta now sm =
     (let sid = str ''session_'' @ stamp;
          sm1 = sm\<lparr>self_session_id := Some sid\<rparr>
      in case insert_session sid start meta now (db sm1) of
           Inl e \<Rightarrow> (Inl e, sm1)
         | Inr d \<Rightarrow> (Inr sid, sm1\<lparr>db := d\<rparr>))"

definition end_session :: "ustr option \<Rightarrow> nat \<Rightarrow> state_manager \<Rightarrow> state_manager" where
  "end_session sid now sm =
     (case py_or sid (self_session_id sm) of
        None \<Rightarrow> sm
      | Some s \<Rightarrow> if s = [] then sm else sm\<lparr>db := update_session_completed s now (db sm)\<rparr>)"

definition is_visited :: "(ustr \<Rightarrow> ustr) \<Rightarrow> ustr \<Rightarrow> ustr option \<Rightarrow> state_manager \<Rightarrow> bool" where
  "is_visited hash_url u sid sm =
     (let uh = hash_url u;
          count = (if truthy sid
                   then length (filter (\<lambda>r. url_hash r = uh \<and> session_id r = sid)
                                  (visited_urls (db sm)))
                   else length (filter (\<lambda>r. url_hash r = uh) (visited_urls (db sm))))
      in count > 0)"

text \<open>
  \<open>mark_visited\<close>: the \<open>except sqlite3.IntegrityError\<close> clause turns the failed insertion
  into the update; any other exception would leave the method.
\<close>

definition mark_visited ::
  "(ustr \<Rightarrow> ustr) \<Rightarrow> ustr \<Rightarrow> ustr option \<Rightarrow> ustr \<Rightarrow> nat \<Rightarrow> state_manager \<Rightarrow> error + state_manager" where
  "mark_visited hash_url u sid st now sm =
     (let uh = hash_url u;
          sid' = py_or sid (self_session_id sm)
      in case insert_visit
                \<lparr>url_hash = uh, url = u, session_id = sid', visited_at = now, status = st\<rparr>
                (db sm) of
           Inr d \<Rightarrow> Inr (sm\<lparr>db := d\<rparr>)
         | Inl IntegrityError \<Rightarrow> Inr (sm\<lparr>db := update_visit uh st now (db sm)\<rparr>)
         | Inl e \<Rightarrow> Inl e)"

text \<open>\<open>save_item\<close>: \<open>data\<close> is the text \<open>json.dumps(data, ensure_ascii=False)\<close>.\<close>

definition save_item :: "ustr \<Rightarrow> ustr \<Rightarrow> ustr option \<Rightarrow> nat \<Rightarrow> state_manager \<Rightarrow> state_manager" where
  "save_item u data sid now sm =
     (let sid' = py_or sid (self_session_id sm);
          d = db sm;
          n = Suc (item_seq d)
      in sm\<lparr>db := d\<lparr>scraped_items := scraped_items d @
                      [\<lparr>item_id = n, item_session = sid', item_url = u, item_data = data,
                        scraped_at = now\<rparr>],
                    item_seq := n\<rparr>\<rparr>)"

definition get_visited_count :: "ustr option \<Rightarrow> state_manager \<Rightarrow> nat" where
  "get_visited_count sid sm =
     (if truthy sid
      then length (filter (\<lambda>r. session_id r = sid) (visited_urls (db sm)))
      else length (visited_urls (db sm)))"

definition clear_session :: "ustr \<Rightarrow> state_manager \<Rightarrow> state_manager" where
  "clear_session sid sm =
     (let d = db sm
      in sm\<lparr>db := d\<lparr>visited_urls := filter (\<lambda>r. session_id r \<noteq> Some sid) (visited_urls d),
                    sessions := filter (\<lambda>r. sess_id r \<noteq> sid) (sessions d),
                    scraped_items := filter (\<lambda>r. item_session r \<noteq> Some sid) (scraped_items d)\<rparr>\<rparr>)"

definition clear_all :: "state_manager \<Rightarrow> state_manager" where
  "clear_all sm =
     sm\<lparr>db := (db sm)\<lparr>visited_urls := [], sessions := [], scraped_items := []\<rparr>\<rparr>"

text \<open>The primary-key constraint of \<open>visited_urls\<close>, as a predicate on the table.\<close>

definition pk_ok :: "database \<Rightarrow> bool" where
  "pk_ok d = distinct (map url_hash (visited_urls d))"

text \<open>The visit records of a URL, and those of a URL within one session.\<close>

definition visits_of :: "(ustr \<Rightarrow> ustr) \<Rightarrow> ustr \<Rightarrow> state_manager \<Rightarrow> visit_row list" where
  "visits_of hash_url u sm = filter (\<lambda>r. url_hash r = hash_url u) (visited_urls (db sm))"

definition visits_in :: "(ustr \<Rightarrow> ustr) \<Rightarrow> ustr \<Rightarrow> ustr \<Rightarrow> state_manager \<Rightarrow> visit_row list" where
  "visits_in hash_url u s sm =
     filter (\<lambda>r. url_hash r = hash_url u \<and> session_id r = Some s) (visited_urls (db sm))"

text \<open>
  A stand-in for the digest in concrete runs. The runs below hash one URL only, and every
  function gives equal digests to equal URLs.
\<close>

definition plain_key :: "ustr \<Rightarrow> ustr" where
  "plain_key u = u"

text \<open>Sequencing of two calls, the second of which runs only when the first returns.\<close>

definition and_then :: "error + 'a \<Rightarrow> ('a \<Rightarrow> error + 'b) \<Rightarrow> error + 'b" where
  "and_then m f = (case m of Inl e \<Rightarrow> Inl e | Inr x \<Rightarrow> f x)"

text \<open>A store that holds one visit record, made in session \<open>session_1\<close>.\<close>

definition one_visit :: state_manager where
  "one_visit = new_manager (empty_db\<lparr>visited_urls :=
      [\<lparr>url_hash = str ''https://x.com/a'', url = str ''https://x.com/a'',
        session_id = Some (str ''session_1''), visited_at = 1, status = str ''success''\<rparr>]\<rparr>)"

section \<open>Text primitives of the Python library\<close>

text \<open>
  \<open>str.strip()\<close> removes the characters for which \<open>str.isspace()\<close> holds from both ends.
\<close>

definition py_space :: "nat \<Rightarrow> bool" where
  "py_space c =
     ((9 \<le> c \<and> c \<le> 13) \<or> (28 \<le> c \<and> c \<le> 32) \<or> c = 133 \<or> c = 160 \<or> c = 5760 \<or>
      (8192 \<le> c \<and> c \<le> 8202) \<or> c = 8232 \<or> c = 8233 \<or> c = 8239 \<or> c = 8287 \<or>
      c = 12288)"

definition strip :: "ustr \<Rightarrow> ustr" where
  "strip s = rev (dropWhile py_space (rev (dropWhile py_space s)))"

text \<open>\<open>sep.join(parts)\<close>\<close>

fun join :: "ustr \<Rightarrow> ustr list \<Rightarrow> ustr" where
  "join sep [] = []"
| "join sep [x] = x"
| "join sep (x # y # ys) = x @ sep @ join sep (y # ys)"

text \<open>\<open>needle in text\<close> on strings.\<close>

fun contains :: "ustr \<Rightarrow> ustr \<Rightarrow> bool" where
  "contains needle [] = (needle = [])"
| "contains needle (c # cs) = (take (length needle) (c # cs) = needle \<or> contains needle cs)"

text \<open>
  The decimal digits. Beyond ASCII, the characters of Unicode category \<open>Nd\<close> and their
  values are a table of the Python runtime; it is the argument \<open>nd\<close> (consulted only for
  code points from 128 on), which gives the value of a decimal digit and \<open>None\<close> for any
  other character.
\<close>

definition digit_val :: "(nat \<Rightarrow> nat option) \<Rightarrow> nat \<Rightarrow> nat option" where
  "digit_val nd c =
     (if 48 \<le> c \<and> c \<le> 57 then Some (c - 48) else if 128 \<le> c then nd c else None)"

definition is_digit :: "(nat \<Rightarrow> nat option) \<Rightarrow> nat \<Rightarrow> bool" where
  "is_digit nd c = (digit_val nd c \<noteq> None)"

text \<open>The table with no digit beyond ASCII, for runs on ASCII text.\<close>

definition ascii_only :: "nat \<Rightarrow> nat option" where
  "ascii_only c = None"

text \<open>
  \<open>int(s)\<close> on a string: surrounding whitespace is dropped, a sign may lead, and the
  digits may be grouped by single underscores; anything else raises \<open>ValueError\<close>. The
  whitespace of \<open>int\<close> is narrower than that of \<open>str.strip\<close>: below 128 it is the tab, the
  line feed, the vertical tab, the form feed, the carriage return and the space only (the
  separators 28 to 31 are rejected), from 128 on it is the whitespace of \<open>str.isspace\<close>.
  The runtime refuses a conversion between a string and an integer of more than
  \<open>sys.int_max_str_digits\<close> digits, 4300 by default, with \<open>ValueError\<close>, in both
  directions.
\<close>

definition int_space :: "nat \<Rightarrow> bool" where
  "int_space c = ((9 \<le> c \<and> c \<le> 13) \<or> c = 32 \<or> (128 \<le> c \<and> py_space c))"

definition int_max_str_digits :: nat where
  "int_max_str_digits = 4300"

fun split_on :: "nat \<Rightarrow> ustr \<Rightarrow> ustr list" where
  "split_on d [] = [[]]"
| "split_on d (c # cs) =
     (if c = d then [] # split_on d cs
      else (case split_on d cs of
              [] \<Rightarrow> [[c]]
            | g # gs \<Rightarrow> (c # g) # gs))"

fun digits_value :: "(nat \<Rightarrow> nat option) \<Rightarrow> ustr \<Rightarrow> nat \<Rightarrow> nat option" where
  "digits_value nd [] acc = Some acc"
| "digits_value nd (c # cs) acc =
     (case digit_val nd c of
        None \<Rightarrow> None
      | Some v \<Rightarrow> digits_value nd cs (10 * acc + v))"

definition py_int :: "(nat \<Rightarrow> nat option) \<Rightarrow> ustr \<Rightarrow> error + int" where
  "py_int nd s =
     (let t = rev (dropWhile int_space (rev (dropWhile int_space s)));
          neg = (case t of [] \<Rightarrow> False | c # _ \<Rightarrow> c = 45);
          body = (case t of [] \<Rightarrow> [] | c # r \<Rightarrow> if c = 45 \<or> c = 43 then r else t);
          groups = split_on 95 body
      in if [] \<in> set groups then Inl ValueError
         else if length (concat groups) > int_max_str_digits then Inl ValueError
         else (case digits_value nd (concat groups) 0 of
                 None \<Rightarrow> Inl ValueError
               | Some v \<Rightarrow> Inr (if neg then - int v else int v)))"

text \<open>
  \<open>str(n)\<close> on an integer, which an f-string applies: the decimal rendering, or
  \<open>ValueError\<close> when it has more digits than the limit.
\<close>

function digits_of :: "nat \<Rightarrow> ustr" where
  "digits_of n = (if n < 10 then [48 + n] else digits_of (n div 10) @ [48 + n mod 10])"
  by pat_completeness auto
termination
  by (relation "measure (\<lambda>n. n)") auto

definition py_str_int :: "int \<Rightarrow> error + ustr" where
  "py_str_int i =
     (let ds = digits_of (nat \<bar>i\<bar>)
      in if length ds > int_max_str_digits then Inl ValueError
         else Inr (if i < 0 then 45 # ds else ds))"

section \<open>Regular expressions (\<open>re\<close>)\<close>

text \<open>
  The patterns of the source are sequences of single-character atoms, each with a greedy
  quantifier, with at most one capture group around a contiguous part: this covers the
  price pattern of the extractor and page-number patterns such as \<open>page=(\d+)\<close>. A pattern
  is given compiled. Matching is the backtracking search of \<open>re\<close>: alternatives are
  explored in priority order, a greedy quantifier tries the longest repetition first, and
  the first complete match wins.
\<close>

datatype atom =
    Lit nat
  | Digit
  | AnyChar
  | OneOf "nat list"

datatype quant = Once | Plus | Star | Opt

type_synonym rx_item = "atom \<times> quant"

datatype regex =
    Plain "rx_item list"
  | Grouped "rx_item list" "rx_item list" "rx_item list"

fun atom_ok :: "(nat \<Rightarrow> nat option) \<Rightarrow> atom \<Rightarrow> nat \<Rightarrow> bool" where
  "atom_ok nd (Lit c) x = (x = c)"
| "atom_ok nd Digit x = is_digit nd x"
| "atom_ok nd AnyChar x = (x \<noteq> 10)"
| "atom_ok nd (OneOf cs) x = (x \<in> set cs)"

text \<open>
  The remainders of the text after one quantified atom, in the order in which the matcher
  tries them (longest repetition first).
\<close>

fun reps :: "(nat \<Rightarrow> nat option) \<Rightarrow> atom \<Rightarrow> quant \<Rightarrow> ustr \<Rightarrow> ustr list" where
  "reps nd a Once s =
     (case s of [] \<Rightarrow> [] | c # t \<Rightarrow> if atom_ok nd a c then [t] else [])"
| "reps nd a Opt s =
     (case s of [] \<Rightarrow> [s] | c # t \<Rightarrow> if atom_ok nd a c then [t, s] else [s])"
| "reps nd a Plus s =
     (let n = length (takeWhile (atom_ok nd a) s) in map (\<lambda>k. drop k s) (rev [1..<Suc n]))"
| "reps nd a Star s =
     (let n = length (takeWhile (atom_ok nd a) s) in map (\<lambda>k. drop k s) (rev [0..<Suc n]))"

fun match_items :: "(nat \<Rightarrow> nat option) \<Rightarrow> rx_item list \<Rightarrow> ustr \<Rightarrow> ustr list" where
  "match_items nd [] s = [s]"
| "match_items nd ((a, q) # its) s = concat (map (match_items nd its) (reps nd a q s))"

text \<open>
  A match anchored at the start of the text: the number of characters matched and the
  text of group 1, when the pattern has a group.
\<close>

fun match_at :: "(nat \<Rightarrow> nat option) \<Rightarrow> regex \<Rightarrow> ustr \<Rightarrow> (nat \<times> ustr option) option" where
  "match_at nd (Plain its) s =
     (case match_items nd its s of
        [] \<Rightarrow> None
      | r # _ \<Rightarrow> Some (length s - length r, None))"
| "match_at nd (Grouped b g a) s =
     (case concat (map (\<lambda>r1. concat (map (\<lambda>r2. map (\<lambda>r3. (r1, r2, r3)) (match_items nd a r2))
                                         (match_items nd g r1)))
                    (match_items nd b s)) of
        [] \<Rightarrow> None
      | (r1, r2, r3) # _ \<Rightarrow> Some (length s - length r3, Some (take (length r1 - length r2) r1)))"

text \<open>
  \<open>re.search\<close>: the leftmost match, as the text skipped before it, the matched text
  (\<open>group(0)\<close>) and group 1.
\<close>

fun re_search :: "(nat \<Rightarrow> nat option) \<Rightarrow> regex \<Rightarrow> ustr \<Rightarrow> (ustr \<times> ustr \<times> ustr option) option" where
  "re_search nd rx [] =
     (case match_at nd rx [] of None \<Rightarrow> None | Some (n, g) \<Rightarrow> Some ([], [], g))"
| "re_search nd rx (c # cs) =
     (case match_at nd rx (c # cs) of
        Some (n, g) \<Rightarrow> Some ([], take n (c # cs), g)
      | None \<Rightarrow>
          (case re_search nd rx cs of
             None \<Rightarrow> None
           | Some (pre, m, g) \<Rightarrow> Some (c # pre, m, g)))"

text \<open>
  \<open>re.sub(pattern, repl, string)\<close> for a replacement text without escapes: every
  non-overlapping match, from left to right, is replaced; after an empty match the next
  character is copied. \<open>skip\<close> counts the characters of the match just replaced that are
  still to be passed over.
\<close>

fun re_sub_skip :: "(nat \<Rightarrow> nat option) \<Rightarrow> regex \<Rightarrow> ustr \<Rightarrow> nat \<Rightarrow> ustr \<Rightarrow> ustr" where
  "re_sub_skip nd rx repl skip [] =
     (if skip = 0 \<and> match_at nd rx [] \<noteq> None then repl else [])"
| "re_sub_skip nd rx repl skip (c # cs) =
     (if skip > 0 then re_sub_skip nd rx repl (skip - 1) cs
      else (case match_at nd rx (c # cs) of
              None \<Rightarrow> c # re_sub_skip nd rx repl 0 cs
            | Some (n, g) \<Rightarrow>
                if n = 0 then repl @ c # re_sub_skip nd rx repl 0 cs
                else repl @ re_sub_skip nd rx repl (n - 1) cs))"

definition re_sub :: "(nat \<Rightarrow> nat option) \<Rightarrow> regex \<Rightarrow> ustr \<Rightarrow> ustr \<Rightarrow> ustr" where
  "re_sub nd rx repl s = re_sub_skip nd rx repl 0 s"

text \<open>The literal text \<open>s\<close> as a sequence of pattern items.\<close>

definition lits :: "string \<Rightarrow> rx_item list" where
  "lits s = map (\<lambda>c. (Lit (of_char c), Once)) s"

section \<open>The parsed document (\<open>bs4\<close>)\<close>

text \<open>
  A parsed document is a tree of text nodes and tags. A tag carries its name, its
  string-valued attributes, the \<open>class\<close> attribute (which \<open>bs4\<close> keeps as the list of its
  tokens; \<open>None\<close> when the tag has none) and its children. The \<open>BeautifulSoup\<close> object is
  the root tag.
\<close>

datatype node =
    Text ustr
  | Tag string "(string \<times> ustr) list" "ustr list option" "node list"

text \<open>All nodes below a node, in document order.\<close>

fun descendants :: "node \<Rightarrow> node list" where
  "descendants (Text t) = []"
| "descendants (Tag n a c ks) = concat (map (\<lambda>k. k # descendants k) ks)"

fun is_tag :: "string \<Rightarrow> node \<Rightarrow> bool" where
  "is_tag n (Text t) = False"
| "is_tag n (Tag m a c ks) = (m = n)"

text \<open>\<open>element.find_all(name)\<close> and \<open>element.find(name)\<close>\<close>

definition find_all :: "string \<Rightarrow> node \<Rightarrow> node list" where
  "find_all n el = filter (is_tag n) (descendants el)"

definition find_tag :: "string \<Rightarrow> node \<Rightarrow> node option" where
  "find_tag n el = (case find_all n el of [] \<Rightarrow> None | x # _ \<Rightarrow> Some x)"

text \<open>\<open>element.get(key)\<close> for a string-valued attribute, and \<open>element.get('class')\<close>\<close>

fun get_attr :: "string \<Rightarrow> node \<Rightarrow> ustr option" where
  "get_attr k (Text t) = None"
| "get_attr k (Tag n a c ks) = map_of a k"

fun get_class :: "node \<Rightarrow> ustr list option" where
  "get_class (Text t) = None"
| "get_class (Tag n a c ks) = c"

text \<open>
  \<open>element.get_text(sep, strip=True)\<close>: the text nodes below the element, each stripped,
  the empty ones dropped, joined by \<open>sep\<close>.
\<close>

fun stripped :: "node \<Rightarrow> ustr list" where
  "stripped (Text t) = (if strip t = [] then [] else [strip t])"
| "stripped (Tag n a c ks) = []"

definition get_text :: "ustr \<Rightarrow> node \<Rightarrow> ustr" where
  "get_text sep el = join sep (concat (map stripped (descendants el)))"

section \<open>The extraction engine (\<open>scraper/extractor.py\<close>)\<close>

text \<open>
  An extracted item is a Python dictionary from field names to strings; it is an
  association list in insertion order. \<open>dict_set\<close> is the assignment \<open>d[k] = v\<close>.
\<close>

type_synonym item = "(ustr \<times> ustr) list"

fun dict_set :: "ustr \<Rightarrow> ustr \<Rightarrow> item \<Rightarrow> item" where
  "dict_set k v [] = [(k, v)]"
| "dict_set k v (p # ps) = (if fst p = k then (k, v) # ps else p # dict_set k v ps)"

text \<open>\<open>any(d.values())\<close>: some value is a non-empty string.\<close>

definition any_values :: "item \<Rightarrow> bool" where
  "any_values d = list_ex (\<lambda>p. snd p \<noteq> []) d"

text \<open>
  The collaborators of the engine: the HTML parser, the CSS selector engine
  (\<open>select\<close>; \<open>select_one\<close> is its first match), \<open>str.lower\<close>, \<open>trafilatura.extract\<close>, the
  digit table of the runtime and the rounding of a real number to a double.
\<close>

record env =
  parse_html :: "ustr \<Rightarrow> error + node"
  css_select :: "ustr \<Rightarrow> node \<Rightarrow> error + node list"
  lower :: "ustr \<Rightarrow> ustr"
  trafilatura_extract :: "ustr \<Rightarrow> error + ustr option"
  nd_table :: "nat \<Rightarrow> nat option"
  fl :: "real \<Rightarrow> real"

text \<open>The configuration dictionary, with the keys that the code reads.\<close>

record pagination_config =
  ptype :: "ustr option"
  selector :: "ustr option"
  pattern :: "regex option"
  max_pages :: "int option"

record config =
  selectors :: "item option"
  cfg_fields :: "item option"
  container :: "ustr option"
  max_items :: "int option"
  pagination :: "pagination_config option"
  save_html :: bool

definition empty_config :: config where
  "empty_config = \<lparr>selectors = None, cfg_fields = None, container = None, max_items = None,
                   pagination = None, save_html = False\<rparr>"

datatype result = RDict item | RList "item list"

subsection \<open>Strategy 1: configured selectors\<close>

definition select_one :: "env \<Rightarrow> ustr \<Rightarrow> node \<Rightarrow> error + node option" where
  "select_one e sel el =
     (case css_select e sel el of
        Inl err \<Rightarrow> Inl err
      | Inr [] \<Rightarrow> Inr None
      | Inr (x # _) \<Rightarrow> Inr (Some x))"

text \<open>
  The value of one field, by the name of the field. The \<open>price\<close> and \<open>cost\<close> branch of the
  source does what the last branch does.
\<close>

definition field_value :: "env \<Rightarrow> ustr \<Rightarrow> node \<Rightarrow> ustr" where
  "field_value e field_name target =
     (let lower_field = lower e field_name
      in if lower_field \<in> set [str ''link'', str ''url'', str ''href'']
         then (case get_attr ''href'' target of
                 Some h \<Rightarrow> h
               | None \<Rightarrow> get_text [] target)
         else if lower_field \<in> set [str ''image'', str ''img'', str ''src'', str ''thumbnail'']
         then (case get_attr ''src'' target of
                 Some s \<Rightarrow> s
               | None \<Rightarrow> (case get_attr ''data-src'' target of
                            Some s \<Rightarrow> s
                          | None \<Rightarrow> get_text [] target))
         else get_text [] target)"

text \<open>\<open>_extract_fields\<close>: an exception while a field is looked up skips the field.\<close>

fun extract_fields :: "env \<Rightarrow> node \<Rightarrow> item \<Rightarrow> item \<Rightarrow> item" where
  "extract_fields e element [] data = data"
| "extract_fields e element ((field_name, sel) # rest) data =
     (case select_one e sel element of
        Inl err \<Rightarrow> extract_fields e element rest data
      | Inr None \<Rightarrow> extract_fields e element rest data
      | Inr (Some target) \<Rightarrow>
          extract_fields e element rest (dict_set field_name (field_value e field_name target) data))"

definition extract_with_selectors :: "env \<Rightarrow> node \<Rightarrow> item \<Rightarrow> ustr option \<Rightarrow> error + result" where
  "extract_with_selectors e soup sels cont =
     (case cont of
        Some c \<Rightarrow>
          if c = [] then Inr (RDict (extract_fields e soup sels []))
          else (case css_select e c soup of
                  Inl err \<Rightarrow> Inl err
                | Inr containers \<Rightarrow>
                    Inr (RList (filter any_values
                                  (map (\<lambda>element. extract_fields e element sels []) containers))))
      | None \<Rightarrow> Inr (RDict (extract_fields e soup sels [])))"

subsection \<open>Strategy 2: automatic list detection\<close>

text \<open>
  The price pattern \<open>[\$\<euro>\<pounds>0-9]+[.,]\d{2}\<close>: the character class holds the dollar sign
  (36), the euro sign (8364), the pound sign (163) and the ASCII digits.
\<close>

definition price_rx :: regex where
  "price_rx = Plain [(OneOf ([36, 8364, 163] @ [48..<58]), Plus), (OneOf [46, 44], Once),
                     (Digit, Once), (Digit, Once)]"

text \<open>The search for a title among the headings, which stops at the first non-empty one.\<close>

fun heading_title :: "node \<Rightarrow> string list \<Rightarrow> item \<Rightarrow> item" where
  "heading_title element [] data = data"
| "heading_title element (h # hs) data =
     (case find_tag h element of
        None \<Rightarrow> heading_title element hs data
      | Some h_tag \<Rightarrow>
          (let text = get_text [] h_tag
           in if text \<noteq> [] then dict_set (str ''title'') text data
              else heading_title element hs data))"

definition heuristically_extract_item :: "(nat \<Rightarrow> nat option) \<Rightarrow> node \<Rightarrow> item" where
  "heuristically_extract_item nd element =
     (let data1 =
            (case find_tag ''img'' element of
               None \<Rightarrow> []
             | Some img \<Rightarrow>
                 (case py_or (get_attr ''src'' img) (get_attr ''data-src'' img) of
                    None \<Rightarrow> []
                  | Some src \<Rightarrow>
                      if src \<noteq> [] \<and> length src > 10 then dict_set (str ''image'') src [] else []));
          data2 =
            (case find_tag ''a'' element of
               None \<Rightarrow> data1
             | Some a_tag \<Rightarrow>
                 (let d = (case get_attr ''href'' a_tag of
                             None \<Rightarrow> data1
                           | Some href \<Rightarrow>
                               if href \<noteq> [] then dict_set (str ''link'') href data1 else data1);
                      link_text = get_text [] a_tag
                  in if link_text \<noteq> [] \<and> length link_text > 3
                     then dict_set (str ''title'') link_text d else d));
          data3 =
            (if str ''title'' \<notin> set (map fst data2)
             then heading_title element [''h1'', ''h2'', ''h3'', ''h4'', ''h5'', ''strong''] data2
             else data2);
          text_content = get_text (str '' '') element
      in case re_search nd price_rx text_content of
           None \<Rightarrow> data3
         | Some (pre, m, g) \<Rightarrow> dict_set (str ''price'') m data3)"

text \<open>
  The grouping of the scanned elements by class signature: \<open>class_counts\<close> is a dictionary
  from signatures to the elements that carry them, in the order of first occurrence.
\<close>

definition signature :: "ustr list \<Rightarrow> ustr" where
  "signature classes = join [46] (sort classes)"

fun group_add :: "ustr \<Rightarrow> node \<Rightarrow> (ustr \<times> node list) list \<Rightarrow> (ustr \<times> node list) list" where
  "group_add sig el [] = [(sig, [el])]"
| "group_add sig el (p # ps) =
     (if fst p = sig then (sig, snd p @ [el]) # ps else p # group_add sig el ps)"

definition class_counts :: "node \<Rightarrow> (ustr \<times> node list) list" where
  "class_counts soup =
     foldl (\<lambda>cc element.
              case get_class element of
                None \<Rightarrow> cc
              | Some classes \<Rightarrow>
                  if classes = [] then cc else group_add (signature classes) element cc)
       []
       (concat (map (\<lambda>tag_name. find_all tag_name soup) [''div'', ''article'', ''li'', ''tr'']))"

definition candidates :: "node \<Rightarrow> node list list" where
  "candidates soup = map snd (filter (\<lambda>p. length (snd p) \<ge> 3) (class_counts soup))"

text \<open>
  The sample of a candidate group and the test on it. The source compares the quotient of
  two integers, a double, with the literal \<open>0.6\<close>. A candidate has at least three members,
  so the sample size is 3, 4 or 5: the exact quotient either equals 3/5, and then its
  double is the double of the literal, or differs from 3/5 by at least 1/25, far more than
  any rounding. The comparison of the doubles is therefore the comparison of the exact
  numbers, which the model states (lemma \<open>sample_accepted_doubles\<close> below).
\<close>

definition sample_size :: "node list \<Rightarrow> nat" where
  "sample_size elements = min (length elements) 5"

definition valid_items :: "(nat \<Rightarrow> nat option) \<Rightarrow> node list \<Rightarrow> nat" where
  "valid_items nd elements =
     length (filter (\<lambda>el. length (heuristically_extract_item nd el) \<ge> 2)
               (take (sample_size elements) elements))"

definition sample_accepted :: "(nat \<Rightarrow> nat option) \<Rightarrow> node list \<Rightarrow> bool" where
  "sample_accepted nd elements =
     (real (valid_items nd elements) / real (sample_size elements) > 6 / 10)"

text \<open>
  The items and the score of a candidate. The score is computed in doubles: each
  operation is the exact one followed by the rounding \<open>rnd\<close>.
\<close>

definition extracted_set :: "(nat \<Rightarrow> nat option) \<Rightarrow> node list \<Rightarrow> item list" where
  "extracted_set nd elements =
     (if sample_accepted nd elements
      then filter any_values (map (heuristically_extract_item nd) elements)
      else [])"

definition score :: "(real \<Rightarrow> real) \<Rightarrow> item list \<Rightarrow> real" where
  "score rnd ex =
     (if ex = [] then 0
      else (let avg_fields = rnd (real (sum_list (map length ex)) / real (length ex))
            in rnd (rnd (real (length ex) * avg_fields) * (if avg_fields \<ge> 3 then 3 / 2 else 1))))"

fun best_candidate ::
  "(nat \<Rightarrow> nat option) \<Rightarrow> (real \<Rightarrow> real) \<Rightarrow> node list list \<Rightarrow> item list \<Rightarrow> real \<Rightarrow> item list" where
  "best_candidate nd rnd [] best_items max_score = best_items"
| "best_candidate nd rnd (elements # rest) best_items max_score =
     (let ex = extracted_set nd elements;
          sc = score rnd ex
      in if sc > max_score then best_candidate nd rnd rest ex sc
         else best_candidate nd rnd rest best_items max_score)"

definition detect_and_extract_list :: "env \<Rightarrow> node \<Rightarrow> item list option" where
  "detect_and_extract_list e soup =
     (let best_items = best_candidate (nd_table e) (fl e) (candidates soup) [] 0
      in if best_items \<noteq> [] then Some best_items else None)"

subsection \<open>Strategy 3: smart content\<close>

definition find_meta :: "string \<Rightarrow> ustr \<Rightarrow> node \<Rightarrow> node option" where
  "find_meta k v soup =
     (case filter (\<lambda>m. get_attr k m = Some v) (find_all ''meta'' soup) of
        [] \<Rightarrow> None
      | m # _ \<Rightarrow> Some m)"

definition extract_smart_content :: "env \<Rightarrow> ustr \<Rightarrow> node \<Rightarrow> item" where
  "extract_smart_content e html soup =
     (let r1 = (case find_tag ''title'' soup of
                  None \<Rightarrow> []
                | Some t \<Rightarrow> dict_set (str ''title'') (get_text [] t) []);
          meta_desc = (case find_meta ''name'' (str ''description'') soup of
                         Some m \<Rightarrow> Some m
                       | None \<Rightarrow> find_meta ''property'' (str ''og:description'') soup);
          r2 = (case meta_desc of
                  None \<Rightarrow> r1
                | Some m \<Rightarrow>
                    dict_set (str ''description'')
                      (strip (case get_attr ''content'' m of None \<Rightarrow> [] | Some c \<Rightarrow> c)) r1);
          body_text = (case find_tag ''body'' soup of
                         None \<Rightarrow> None
                       | Some b \<Rightarrow> Some (take 5000 (get_text [10] b)));
          main_content = (case trafilatura_extract e html of
                            Inl err \<Rightarrow> None
                          | Inr None \<Rightarrow> None
                          | Inr (Some c) \<Rightarrow> if c = [] then None else Some c);
          r3 = (case main_content of
                  Some c \<Rightarrow> dict_set (str ''content'') c r2
                | None \<Rightarrow>
                    (case body_text of
                       None \<Rightarrow> r2
                     | Some b \<Rightarrow> dict_set (str ''content'') b r2))
      in dict_set (str ''extraction_type'') (str ''smart_fallback'') r3)"

subsection \<open>The entry point\<close>

text \<open>
  Truthiness of an optional dictionary. \<open>config.get('selectors') or config.get('fields')\<close>
  is the first when it is truthy and the second otherwise.
\<close>

definition truthy_dict :: "item option \<Rightarrow> bool" where
  "truthy_dict d = (case d of None \<Rightarrow> False | Some x \<Rightarrow> x \<noteq> [])"

text \<open>\<open>Extractor.extract\<close>\<close>

definition extractor_extract :: "env \<Rightarrow> ustr option \<Rightarrow> config option \<Rightarrow> error + result" where
  "extractor_extract e html cfg =
     (case html of
        None \<Rightarrow> Inr (RDict [])
      | Some h \<Rightarrow>
          if h = [] then Inr (RDict [])
          else
            (let c = (case cfg of None \<Rightarrow> empty_config | Some c \<Rightarrow> c)
             in case parse_html e h of
                  Inl err \<Rightarrow> Inl err
                | Inr soup \<Rightarrow>
                    (let sels = (if truthy_dict (selectors c) then selectors c else cfg_fields c);
                         rest = (case detect_and_extract_list e soup of
                                   Some items \<Rightarrow> Inr (RList items)
                                 | None \<Rightarrow> Inr (RDict (extract_smart_content e h soup)))
                     in case sels of
                          None \<Rightarrow> rest
                        | Some sl \<Rightarrow>
                            if sl = [] then rest
                            else (case extract_with_selectors e soup sl (container c) of
                                    Inl err \<Rightarrow> Inl err
                                  | Inr (RList items) \<Rightarrow>
                                      if items \<noteq> [] then Inr (RList items) else rest
                                  | Inr (RDict d) \<Rightarrow>
                                      if any_values d then Inr (RDict d) else rest))))"

subsection \<open>Sample documents\<close>

text \<open>
  A card \<open><div class="card"><a href=...>label</a></div>\<close>. It yields a link, and a title
  when the label has more than three characters.
\<close>

definition card :: "string \<Rightarrow> string \<Rightarrow> node" where
  "card href label =
     Tag ''div'' [] (Some [str ''card''])
       [Tag ''a'' [(''href'', str href)] None [Text (str label)]]"

text \<open>Five cards of which the first three yield two fields and the last two only one.\<close>

definition cards_3_of_5 :: "node list" where
  "cards_3_of_5 =
     [card ''/p/1'' ''First item'', card ''/p/2'' ''Second item'', card ''/p/3'' ''Third item'',
      card ''/p/4'' ''4'', card ''/p/5'' ''5'']"

definition soup_3_of_5 :: node where
  "soup_3_of_5 = Tag ''[document]'' [] None cards_3_of_5"

text \<open>Five cards of which four yield two fields.\<close>

definition cards_4_of_5 :: "node list" where
  "cards_4_of_5 =
     [card ''/p/1'' ''First item'', card ''/p/2'' ''Second item'', card ''/p/3'' ''Third item'',
      card ''/p/4'' ''Fourth item'', card ''/p/5'' ''5'']"

section \<open>The asynchronous scraper (\<open>scraper/async_scraper.py\<close>)\<close>

text \<open>
  The collaborators of the scraper: the extraction engine's, the digest of the store,
  the page fetch (\<open>_fetch_page\<close>, which raises on a network failure or a non-success
  status), the configuration loader, \<open>BaseScraper.add_result\<close> (the item pipelines, which
  may change the item in place and keep their own state), \<open>json.dumps\<close>, \<open>str(e)\<close> on an
  exception and \<open>urllib.parse.urljoin\<close>.
\<close>

datatype payload = Whole item | Summary nat

record 'p collaborators =
  engine :: env
  digest :: "ustr \<Rightarrow> ustr"
  fetch_page :: "ustr \<Rightarrow> error + ustr"
  config_for_url :: "ustr \<Rightarrow> config option"
  add_result :: "item \<Rightarrow> 'p \<Rightarrow> item \<times> 'p"
  json_dumps :: "payload \<Rightarrow> ustr"
  err_text :: "error \<Rightarrow> ustr"
  urljoin :: "ustr \<Rightarrow> ustr \<Rightarrow> ustr"

text \<open>
  The scraper object: \<open>self.config\<close>, \<open>self.state_manager\<close>, the state behind
  \<open>add_result\<close> (the results and the pipelines), and the log of the URLs fetched so far.
\<close>

record 'p scraper =
  self_config :: config
  manager :: "state_manager option"
  pipeline :: 'p
  fetched :: "ustr list"

definition do_fetch :: "'p collaborators \<Rightarrow> ustr \<Rightarrow> 'p scraper \<Rightarrow> (error + ustr) \<times> 'p scraper" where
  "do_fetch c u sc = (fetch_page c u, sc\<lparr>fetched := fetched sc @ [u]\<rparr>)"

text \<open>The selectors and the container that \<open>scrape\<close> resolves before it takes the semaphore.\<close>

definition resolve_selectors :: "'p collaborators \<Rightarrow> ustr \<Rightarrow> item option \<Rightarrow> 'p scraper \<Rightarrow> item option \<times> ustr option" where
  "resolve_selectors c u sel sc =
     (let (sel1, cont1) =
            (if truthy_dict sel then (sel, None)
             else (case selectors (self_config sc) of
                     None \<Rightarrow> (Some [], container (self_config sc))
                   | Some s \<Rightarrow> (Some s, container (self_config sc))))
      in if truthy_dict sel1 then (sel1, cont1)
         else (case config_for_url c u of
                 None \<Rightarrow> (sel1, cont1)
               | Some loaded \<Rightarrow>
                   ((case selectors loaded of None \<Rightarrow> Some [] | Some s \<Rightarrow> Some s),
                    container loaded)))"

text \<open>\<open>item['url'] = url; item['status'] = 'success'\<close>\<close>

definition tag_success :: "ustr \<Rightarrow> item \<Rightarrow> item" where
  "tag_success u d = dict_set (str ''status'') (str ''success'') (dict_set (str ''url'') u d)"

fun add_results :: "'p collaborators \<Rightarrow> item list \<Rightarrow> 'p \<Rightarrow> item list \<times> 'p" where
  "add_results c [] p = ([], p)"
| "add_results c (d # ds) p =
     (let (d', p1) = add_result c d p;
          (ds', p2) = add_results c ds p1
      in (d' # ds', p2))"

text \<open>
  The body of the \<open>try\<close> block of \<open>scrape\<close>: fetch, extract, hand the items to the
  pipelines, record the visit and save the item. It yields the data, or the exception
  that left the block, and the state reached.
\<close>

definition scrape_try ::
  "'p collaborators \<Rightarrow> nat \<Rightarrow> ustr \<Rightarrow> item option \<times> ustr option \<Rightarrow> 'p scraper \<Rightarrow> (error + result) \<times> 'p scraper" where
  "scrape_try c now u sc_sel sc =
     (let (fetched_html, sc1) = do_fetch c u sc
      in case fetched_html of
           Inl e \<Rightarrow> (Inl e, sc1)
         | Inr html \<Rightarrow>
             (case extractor_extract (engine c) (Some html)
                     (Some (empty_config\<lparr>selectors := fst sc_sel, container := snd sc_sel\<rparr>)) of
                Inl e \<Rightarrow> (Inl e, sc1)
              | Inr data \<Rightarrow>
                  (let (data', p') =
                         (case data of
                            RList ds \<Rightarrow>
                              (let (ds', p') = add_results c (map (tag_success u) ds) (pipeline sc1)
                               in (RList ds', p'))
                          | RDict d \<Rightarrow>
                              (let (d', p') = add_result c (tag_success u d) (pipeline sc1)
                               in (RDict d', p')));
                       sc2 = sc1\<lparr>pipeline := p'\<rparr>
                   in case manager sc2 of
                        None \<Rightarrow> (Inr data', sc2)
                      | Some sm \<Rightarrow>
                          (case mark_visited (digest c) u None (str ''success'') now sm of
                             Inl e \<Rightarrow> (Inl e, sc2)
                           | Inr sm1 \<Rightarrow>
                               (let save_data = (case data' of
                                                   RDict d \<Rightarrow> Whole d
                                                 | RList ds \<Rightarrow> Summary (length ds));
                                    sm2 = save_item u (json_dumps c save_data) None now sm1
                                in (Inr data', sc2\<lparr>manager := Some sm2\<rparr>))))))"

text \<open>
  \<open>AsyncScraper.scrape\<close>. The visited check runs before the \<open>try\<close> block and passes no
  session id to \<open>is_visited\<close>. An exception inside the block is answered by a \<open>failed\<close>
  record; one raised while that visit is recorded leaves the method.
\<close>

definition scrape ::
  "'p collaborators \<Rightarrow> nat \<Rightarrow> ustr \<Rightarrow> item option \<Rightarrow> 'p scraper \<Rightarrow> (error + result) \<times> 'p scraper" where
  "scrape c now u sel sc =
     (let sc_sel = resolve_selectors c u sel sc
      in if (case manager sc of None \<Rightarrow> False | Some sm \<Rightarrow> is_visited (digest c) u None sm)
         then (Inr (RDict [(str ''url'', u), (str ''status'', str ''skipped''),
                           (str ''reason'', str ''already_visited'')]), sc)
         else (case scrape_try c now u sc_sel sc of
                 (Inr data, sc') \<Rightarrow> (Inr data, sc')
               | (Inl e, sc') \<Rightarrow>
                   (let failed = RDict [(str ''url'', u), (str ''status'', str ''failed''),
                                        (str ''error'', err_text c e)]
                    in case manager sc' of
                         None \<Rightarrow> (Inr failed, sc')
                       | Some sm \<Rightarrow>
                           (case mark_visited (digest c) u None (str ''failed'') now sm of
                              Inl e' \<Rightarrow> (Inl e', sc')
                            | Inr sm1 \<Rightarrow> (Inr failed, sc'\<lparr>manager := Some sm1\<rparr>)))))"

subsection \<open>The next page\<close>

text \<open>The default pattern \<open>page=(\d+)\<close> of \<open>url_pattern\<close> pagination.\<close>

definition page_rx :: regex where
  "page_rx = Grouped (lits ''page='') [(Digit, Plus)] []"

text \<open>
  The \<open>url_pattern\<close> branch of \<open>_find_next_page\<close>: \<open>match.group(1)\<close> raises \<open>IndexError\<close> for a
  pattern without a group, \<open>int\<close> raises \<open>ValueError\<close> on a group that is not a number, and
  so does the f-string on a next number beyond the digit limit. The replacement text is
  \<open>page=\<close> followed by the next number, for every pattern.
\<close>

definition next_by_pattern :: "(nat \<Rightarrow> nat option) \<Rightarrow> regex \<Rightarrow> ustr \<Rightarrow> error + ustr option" where
  "next_by_pattern nd rx current_url =
     (case re_search nd rx current_url of
        None \<Rightarrow> Inr None
      | Some (pre, m, g) \<Rightarrow>
          (case g of
             None \<Rightarrow> Inl IndexError
           | Some digits \<Rightarrow>
               (case py_int nd digits of
                  Inl e \<Rightarrow> Inl e
                | Inr current_page \<Rightarrow>
                    (let next_page = current_page + 1
                     in case py_str_int next_page of
                          Inl e \<Rightarrow> Inl e
                        | Inr shown \<Rightarrow>
                            Inr (Some (re_sub nd rx (str ''page='' @ shown) current_url))))))"

text \<open>
  The \<open>next_button\<close> branch. The text search accepts an anchor whose lowered text holds
  one of the words for next (the last is the character \<open>\<guillemotright>\<close>, 187) and none of the words
  for previous, and which has a link target; a button is never accepted.
\<close>

definition says_next :: "'p collaborators \<Rightarrow> node \<Rightarrow> bool" where
  "says_next c el =
     (let text = lower (engine c) (get_text [] el)
      in list_ex (\<lambda>p. contains p text)
           [str ''next'', str ''more'', str ''older'', str ''>'', [187]] \<and>
         \<not> (contains (str ''prev'') text \<or> contains (str ''back'') text \<or>
            contains (str ''newer'') text))"

definition next_by_text :: "'p collaborators \<Rightarrow> node \<Rightarrow> node option" where
  "next_by_text c soup =
     (case filter (\<lambda>el. says_next c el \<and> truthy (get_attr ''href'' el)) (find_all ''a'' soup) of
        [] \<Rightarrow> None
      | el # _ \<Rightarrow> Some el)"

definition next_by_button :: "'p collaborators \<Rightarrow> ustr \<Rightarrow> pagination_config \<Rightarrow> 'p scraper \<Rightarrow> ustr option \<times> 'p scraper" where
  "next_by_button c current_url pc sc =
     (let (fetched_html, sc1) = do_fetch c current_url sc
      in case fetched_html of
           Inl e \<Rightarrow> (None, sc1)
         | Inr html \<Rightarrow>
             (case parse_html (engine c) html of
                Inl e \<Rightarrow> (None, sc1)
              | Inr soup \<Rightarrow>
                  (case (case selector pc of
                           None \<Rightarrow> Inr None
                         | Some next_selector \<Rightarrow>
                             if next_selector = [] then Inr None
                             else select_one (engine c) next_selector soup) of
                     Inl e \<Rightarrow> (None, sc1)
                   | Inr chosen \<Rightarrow>
                       (let next_element = (case chosen of
                                              Some el \<Rightarrow> Some el
                                            | None \<Rightarrow> next_by_text c soup)
                        in case next_element of
                             None \<Rightarrow> (None, sc1)
                           | Some el \<Rightarrow>
                               (case get_attr ''href'' el of
                                  None \<Rightarrow> (None, sc1)
                                | Some next_href \<Rightarrow>
                                    if next_href = [] then (None, sc1)
                                    else (Some (urljoin c current_url next_href), sc1))))))"

text \<open>\<open>_find_next_page\<close>: the type defaults to \<open>next_button\<close>, the pattern to \<open>page=(\d+)\<close>.\<close>

definition find_next_page ::
  "'p collaborators \<Rightarrow> ustr \<Rightarrow> pagination_config \<Rightarrow> 'p scraper \<Rightarrow> (error + ustr option) \<times> 'p scraper" where
  "find_next_page c current_url pc sc =
     (let pagination_type = (case ptype pc of None \<Rightarrow> str ''next_button'' | Some t \<Rightarrow> t)
      in if pagination_type = str ''next_button''
         then (let (r, sc1) = next_by_button c current_url pc sc in (Inr r, sc1))
         else if pagination_type = str ''url_pattern''
         then (next_by_pattern (nd_table (engine c))
                 (case pattern pc of None \<Rightarrow> page_rx | Some rx \<Rightarrow> rx) current_url, sc)
         else (Inr None, sc))"

subsection \<open>The store over time\<close>

text \<open>
  The states that a store can reach from a given one by the operations that delete
  nothing: sessions are started and ended, visits are marked, items are saved, and the
  database is opened again by a new \<open>StateManager\<close> (a later run).
\<close>

inductive later_state :: "(ustr \<Rightarrow> ustr) \<Rightarrow> state_manager \<Rightarrow> state_manager \<Rightarrow> bool"
  for h :: "ustr \<Rightarrow> ustr" where
  same: "later_state h sm sm"
| started: "later_state h sm sm1 \<Longrightarrow> later_state h sm (snd (start_session stamp start meta now sm1))"
| ended: "later_state h sm sm1 \<Longrightarrow> later_state h sm (end_session sid now sm1)"
| marked: "later_state h sm sm1 \<Longrightarrow> mark_visited h u sid st now sm1 = Inr sm2 \<Longrightarrow> later_state h sm sm2"
| saved: "later_state h sm sm1 \<Longrightarrow> later_state h sm (save_item u data sid now sm1)"
| reopened: "later_state h sm sm1 \<Longrightarrow> later_state h sm (new_manager (db sm1))"

text \<open>
  Collaborators for concrete runs: the network is down, no configuration is on file, the
  pipelines pass every item on unchanged, and the digest is the stand-in.
\<close>

definition offline_engine :: env where
  "offline_engine =
     \<lparr>parse_html = (\<lambda>h. Inl ParserError), css_select = (\<lambda>s n. Inr []), lower = (\<lambda>s. s),
      trafilatura_extract = (\<lambda>h. Inr None), nd_table = ascii_only, fl = (\<lambda>x. x)\<rparr>"

definition offline :: "unit collaborators" where
  "offline =
     \<lparr>engine = offline_engine, digest = plain_key, fetch_page = (\<lambda>u. Inl FetchError),
      config_for_url = (\<lambda>u. None), add_result = (\<lambda>d p. (d, p)), json_dumps = (\<lambda>p. []),
      err_text = (\<lambda>e. []), urljoin = (\<lambda>a b. b)\<rparr>"

text \<open>
  A first run that starts a session, and a later run: the first session is ended, the
  database is opened by a new \<open>StateManager\<close>, and a second session is started.
\<close>

definition first_run :: state_manager where
  "first_run =
     snd (start_session (str ''20240101_000000'') (str ''https://x.com/a'') None 1
            (new_manager empty_db))"

definition second_run :: "state_manager \<Rightarrow> state_manager" where
  "second_run sm =
     snd (start_session (str ''20240102_000000'') (str ''https://x.com/a'') None 4
            (new_manager (db (end_session None 3 sm))))"

section \<open>The browser scraper (\<open>scraper/universal_scraper.py\<close>)\<close>

text \<open>
  The dictionary that \<open>_extract_data\<close> returns for a page: under the key \<open>items\<close> the list
  of items when the engine returned a list, and string-valued entries otherwise (the
  fields of a single item, \<open>raw_html\<close>, \<open>error\<close>).
\<close>

record page_data =
  pd_items :: "item list option"
  pd_fields :: item

text \<open>
  \<open>_extract_data\<close>: \<open>html\<close> is the content of the browser page, \<open>et\<close> renders an exception
  as text. An exception of the engine becomes an \<open>error\<close> entry.
\<close>

definition extract_data :: "env \<Rightarrow> (error \<Rightarrow> ustr) \<Rightarrow> config \<Rightarrow> ustr \<Rightarrow> page_data" where
  "extract_data e et cfg html =
     (case extractor_extract e (Some html) (Some cfg) of
        Inl err \<Rightarrow> \<lparr>pd_items = None, pd_fields = [(str ''error'', et err)]\<rparr>
      | Inr (RList ds) \<Rightarrow>
          \<lparr>pd_items = Some ds,
           pd_fields = (if save_html cfg then [(str ''raw_html'', html)] else [])\<rparr>
      | Inr (RDict d) \<Rightarrow>
          \<lparr>pd_items = None,
           pd_fields = (if save_html cfg then dict_set (str ''raw_html'') html d else d)\<rparr>)"

text \<open>
  What a page adds to \<open>all_results\<close>: the items of a non-empty list
  (\<open>all_results.extend\<close>), else the page dictionary itself (\<open>all_results.append\<close>). When
  a single item has a non-empty field called \<open>items\<close>, \<open>extend\<close> adds the characters of
  that string.
\<close>

datatype entry = EItem item | EPage page_data | EChar nat

definition page_entries :: "page_data \<Rightarrow> entry list" where
  "page_entries pd =
     (case pd_items pd of
        Some ds \<Rightarrow> if ds \<noteq> [] then map EItem ds else [EPage pd]
      | None \<Rightarrow>
          (case map_of (pd_fields pd) (str ''items'') of
             None \<Rightarrow> [EPage pd]
           | Some s \<Rightarrow> if s \<noteq> [] then map EChar s else [EPage pd]))"

text \<open>The slice \<open>xs[:m]\<close>; a negative \<open>m\<close> counts from the end.\<close>

definition slice_to :: "int \<Rightarrow> 'a list \<Rightarrow> 'a list" where
  "slice_to m xs = (if 0 \<le> m then take (nat m) xs else take (length xs - nat (- m)) xs)"

text \<open>
  \<open>config.get('max_items') and len(all_results) >= config['max_items']\<close>: the limit when
  it is set, not zero and reached.
\<close>

definition limit_hit :: "config \<Rightarrow> nat \<Rightarrow> int option" where
  "limit_hit cfg n =
     (case max_items cfg of
        None \<Rightarrow> None
      | Some m \<Rightarrow> if m \<noteq> 0 \<and> m \<le> int n then Some m else None)"

text \<open>The page limit: 50 unless the pagination configuration gives a truthy one.\<close>

definition max_pages_of :: "config \<Rightarrow> int" where
  "max_pages_of cfg =
     (case pagination cfg of
        None \<Rightarrow> 50
      | Some pc \<Rightarrow> (case max_pages pc of None \<Rightarrow> 50 | Some n \<Rightarrow> if n \<noteq> 0 then n else 50))"

definition has_selector :: "config \<Rightarrow> bool" where
  "has_selector cfg = (case pagination cfg of None \<Rightarrow> False | Some pc \<Rightarrow> truthy (selector pc))"

definition should_paginate :: "config \<Rightarrow> int \<Rightarrow> bool" where
  "should_paginate cfg mp = (has_selector cfg \<or> mp > 1)"

text \<open>
  The browser shows one page at a time. Of a page the crawl sees its content, whether the
  configured selector finds a next button on it, and whether the search by text finds
  one. \<open>site n\<close> is the page shown as page number \<open>n\<close>: page 1 after the navigation to
  the start URL, page \<open>n + 1\<close> after the click on the next button of page \<open>n\<close>.
\<close>

record page_view =
  content :: ustr
  by_selector :: bool
  by_text :: bool

definition next_button :: "config \<Rightarrow> page_view \<Rightarrow> bool" where
  "next_button cfg v = ((has_selector cfg \<and> by_selector v) \<or> by_text v)"

text \<open>
  The result of the crawl: the accumulated results, \<open>total_pages\<close> (the final
  \<open>page_num\<close>), and the number of clicks on a next button, each of which loads a further
  page.
\<close>

record crawl =
  items :: "entry list"
  total_pages :: nat
  clicks :: nat

text \<open>The \<open>while page_num <= max_pages\<close> loop of \<open>UniversalScraper.scrape\<close>.\<close>

function scrape_loop ::
  "env \<Rightarrow> (error \<Rightarrow> ustr) \<Rightarrow> config \<Rightarrow> (nat \<Rightarrow> page_view) \<Rightarrow> int \<Rightarrow> nat \<Rightarrow> entry list \<Rightarrow> nat \<Rightarrow> crawl" where
  "scrape_loop e et cfg site mp page_num all_results n =
     (if int page_num \<le> mp then
        (let page_data = extract_data e et cfg (content (site page_num));
             all1 = all_results @ page_entries page_data
         in case limit_hit cfg (length all1) of
              Some m \<Rightarrow> \<lparr>items = slice_to m all1, total_pages = page_num, clicks = n\<rparr>
            | None \<Rightarrow>
                if should_paginate cfg mp then
                  (if next_button cfg (site page_num)
                   then scrape_loop e et cfg site mp (Suc page_num) all1 (Suc n)
                   else \<lparr>items = all1, total_pages = page_num, clicks = n\<rparr>)
                else \<lparr>items = all1, total_pages = page_num, clicks = n\<rparr>)
      else \<lparr>items = all_results, total_pages = page_num, clicks = n\<rparr>)"
  by pat_completeness auto
termination
  by (relation "measure (\<lambda>(e, et, cfg, site, mp, page_num, all_results, n). nat (mp + 1 - int page_num))")
     auto

text \<open>
  \<open>UniversalScraper.scrape\<close> for a resolved configuration, on a browser whose operations
  succeed: the loop starts at page 1 with no results.
\<close>

definition universal_scrape :: "env \<Rightarrow> (error \<Rightarrow> ustr) \<Rightarrow> config \<Rightarrow> (nat \<Rightarrow> page_view) \<Rightarrow> crawl" where
  "universal_scrape e et cfg site = scrape_loop e et cfg site (max_pages_of cfg) 1 [] 0"

text \<open>The entries that the pages \<open>p\<close> to \<open>k\<close> add to the results.\<close>

definition entries_of :: "env \<Rightarrow> (error \<Rightarrow> ustr) \<Rightarrow> config \<Rightarrow> (nat \<Rightarrow> page_view) \<Rightarrow> nat \<Rightarrow> nat \<Rightarrow> entry list" where
  "entries_of e et cfg site p k =
     concat (map (\<lambda>j. page_entries (extract_data e et cfg (content (site j)))) [p..<Suc k])"

subsection \<open>A source of three pages with ten items each\<close>

text \<open>
  Ten cards with the targets \<open>/a\<close> to \<open>/j\<close>; an engine whose parser yields the document
  of these cards for every page and whose doubles are exact; a site of three pages, the
  first two of which show a next button.
\<close>

definition card_list :: "node list" where
  "card_list = map (\<lambda>c. card [CHR ''/'', c] ''Some item'') ''abcdefghij''"

definition ten_cards :: node where
  "ten_cards = Tag ''[document]'' [] None card_list"

definition ten_items :: "item list" where
  "ten_items =
     map (\<lambda>c. [(str ''link'', str [CHR ''/'', c]), (str ''title'', str ''Some item'')])
       ''abcdefghij''"

definition cards_engine :: env where
  "cards_engine =
     \<lparr>parse_html = (\<lambda>h. Inr ten_cards), css_select = (\<lambda>s n. Inr []), lower = (\<lambda>s. s),
      trafilatura_extract = (\<lambda>h. Inr None), nd_table = ascii_only, fl = (\<lambda>x. x)\<rparr>"

definition three_pages :: "nat \<Rightarrow> page_view" where
  "three_pages n = \<lparr>content = str ''<html>'', by_selector = False, by_text = (n < 3)\<rparr>"

definition five_items :: config where
  "five_items = empty_config\<lparr>max_items := Some 5\<rparr>"

definition fifteen_items :: config where
  "fifteen_items = empty_config\<lparr>max_items := Some 15\<rparr>"

text \<open>A rendering of exceptions for concrete runs.\<close>

definition no_text :: "error \<Rightarrow> ustr" where
  "no_text e = []"

section \<open>Properties of the store\<close>

lemma pk_ok_empty: "pk_ok empty_db"
  by (simp add: pk_ok_def empty_db_def)

lemma insert_visit_pk:
  "pk_ok d \<Longrightarrow> insert_visit r d = Inr d' \<Longrightarrow> pk_ok d'"
  by (auto simp: insert_visit_def pk_ok_def split: if_splits)

lemma hash_comp_update:
  "url_hash \<circ> (\<lambda>r. if url_hash r = uh then r\<lparr>status := st, visited_at := now\<rparr> else r) = url_hash"
  by (auto simp: fun_eq_iff)

lemma update_visit_pk: "pk_ok d \<Longrightarrow> pk_ok (update_visit uh st now d)"
  by (simp add: update_visit_def pk_ok_def hash_comp_update)

lemma mark_visited_total:
  "\<exists>sm'. mark_visited hash_url u sid st now sm = Inr sm'"
  by (auto simp: mark_visited_def Let_def insert_visit_def)

lemma mark_visited_pk:
  "pk_ok (db sm) \<Longrightarrow> mark_visited hash_url u sid st now sm = Inr sm' \<Longrightarrow> pk_ok (db sm')"
  by (auto simp: mark_visited_def Let_def insert_visit_def pk_ok_def update_visit_def
      hash_comp_update split: if_splits)

lemma mark_visited_fresh:
  "hash_url u \<notin> set (map url_hash (visited_urls (db sm))) \<Longrightarrow>
   mark_visited hash_url u sid st now sm =
     Inr (sm\<lparr>db := (db sm)\<lparr>visited_urls := visited_urls (db sm) @
        [\<lparr>url_hash = hash_url u, url = u, session_id = py_or sid (self_session_id sm),
          visited_at = now, status = st\<rparr>]\<rparr>\<rparr>)"
  by (simp add: mark_visited_def Let_def insert_visit_def)

lemma mark_visited_present:
  "hash_url u \<in> set (map url_hash (visited_urls (db sm))) \<Longrightarrow>
   mark_visited hash_url u sid st now sm = Inr (sm\<lparr>db := update_visit (hash_url u) st now (db sm)\<rparr>)"
  by (simp add: mark_visited_def Let_def insert_visit_def)

lemma mark_visited_records:
  "mark_visited hash_url u sid st now sm = Inr sm' \<Longrightarrow>
   hash_url u \<in> set (map url_hash (visited_urls (db sm')))"
  by (cases "hash_url u \<in> set (map url_hash (visited_urls (db sm)))")
     (auto simp: mark_visited_fresh mark_visited_present update_visit_def hash_comp_update
           simp del: set_map)

lemma filter_distinct_key:
  "distinct (map f rs) \<Longrightarrow> k \<in> set (map f rs) \<Longrightarrow> \<exists>r. filter (\<lambda>x. f x = k) rs = [r]"
proof (induction rs)
  case Nil
  then show ?case by simp
next
  case (Cons a rs)
  show ?case
  proof (cases "f a = k")
    case True
    with Cons.prems have "k \<notin> f ` set rs" by auto
    then have "filter (\<lambda>x. f x = k) rs = []" by (auto simp: filter_empty_conv)
    with True show ?thesis by simp
  next
    case False
    with Cons show ?thesis by auto
  qed
qed

lemma filter_update_visit:
  "filter (\<lambda>r. url_hash r = uh) (visited_urls (update_visit uh st now d))
     = map (\<lambda>r. r\<lparr>status := st, visited_at := now\<rparr>) (filter (\<lambda>r. url_hash r = uh) (visited_urls d))"
  by (induction "visited_urls d" arbitrary: d) (auto simp: update_visit_def filter_map comp_def intro!: filter_cong map_cong)

lemma visits_of_fresh:
  assumes "hash_url u \<notin> set (map url_hash (visited_urls (db sm)))"
  shows "visits_of hash_url u sm = []"
  using assms by (force simp: visits_of_def filter_empty_conv)

lemma visits_of_present:
  assumes "pk_ok (db sm)" "hash_url u \<in> set (map url_hash (visited_urls (db sm)))"
  shows "\<exists>r. visits_of hash_url u sm = [r]"
  using filter_distinct_key [OF assms(1) [unfolded pk_ok_def] assms(2)]
  by (simp add: visits_of_def)

lemma visits_of_after_update:
  "visits_of hash_url u (sm\<lparr>db := update_visit (hash_url u) st now (db sm)\<rparr>)
     = map (\<lambda>r. r\<lparr>status := st, visited_at := now\<rparr>) (visits_of hash_url u sm)"
  by (simp add: visits_of_def filter_update_visit)

lemma visits_in_of:
  "visits_in hash_url u s sm = filter (\<lambda>r. session_id r = Some s) (visits_of hash_url u sm)"
  by (simp add: visits_in_def visits_of_def conj_commute)

lemma visits_in_le_one:
  assumes "pk_ok (db sm)"
  shows "length (visits_in hash_url v s sm) \<le> 1"
proof (cases "hash_url v \<in> set (map url_hash (visited_urls (db sm)))")
  case True
  then obtain r where "visits_of hash_url v sm = [r]"
    using visits_of_present [OF assms] by blast
  then show ?thesis by (simp add: visits_in_of)
next
  case False
  then show ?thesis by (simp add: visits_in_of visits_of_fresh)
qed

lemma mark_visited_first:
  assumes "pk_ok (db sm)"
  shows "\<exists>sm1 r. mark_visited hash_url u sid st now sm = Inr sm1 \<and> pk_ok (db sm1) \<and>
           visits_of hash_url u sm1 = [r] \<and> status r = st \<and> visited_at r = now \<and>
           session_id r = (case visits_of hash_url u sm of
                             [] \<Rightarrow> py_or sid (self_session_id sm)
                           | r0 # _ \<Rightarrow> session_id r0) \<and>
           url r = (case visits_of hash_url u sm of [] \<Rightarrow> u | r0 # _ \<Rightarrow> url r0)"
proof (cases "hash_url u \<in> set (map url_hash (visited_urls (db sm)))")
  case True
  then obtain r0 where r0: "visits_of hash_url u sm = [r0]"
    using visits_of_present [OF assms] by blast
  show ?thesis
    using True assms
    by (simp add: mark_visited_present visits_of_after_update r0 update_visit_pk)
next
  case False
  let ?r = "\<lparr>url_hash = hash_url u, url = u, session_id = py_or sid (self_session_id sm),
          visited_at = now, status = st\<rparr>"
  have "visits_of hash_url u (sm\<lparr>db := (db sm)\<lparr>visited_urls := visited_urls (db sm) @ [?r]\<rparr>\<rparr>) = [?r]"
    using visits_of_fresh [of hash_url u sm] False by (simp add: visits_of_def)
  moreover have "pk_ok ((db sm)\<lparr>visited_urls := visited_urls (db sm) @ [?r]\<rparr>)"
    using assms False by (simp add: pk_ok_def)
  ultimately show ?thesis
    using False by (simp add: mark_visited_fresh visits_of_fresh)
qed



lemma end_session_keeps_current:
  "self_session_id (end_session sid now sm) = self_session_id sm"
  by (simp add: end_session_def split: option.splits)

subsection \<open>Uniqueness of visit records\<close>

text \<open>
  Claim C1, as amended. The uniqueness of visit records is scoped to \<open>url_hash\<close> alone,
  not to the pair of hash and session. In a store that satisfies the primary-key constraint,
  \<open>mark_visited(u, s1)\<close> followed by \<open>mark_visited(u, s2)\<close> both return and leave exactly
  one visit record for \<open>u\<close>. It has the status and the timestamp of the second call. Its
  session is the one under which \<open>u\<close> was first inserted: that of the record already
  present, or else the session of the first call. So the record is the only one of \<open>u\<close> in
  that session, no other session has a record of \<open>u\<close>, and within any single session there
  is at most one visit record per \<open>url_hash\<close>.
\<close>

theorem visited_unique_per_hash:
  assumes "pk_ok (db sm)"
  shows "\<exists>sm1 sm2 r.
           mark_visited hash_url u sid1 st1 t1 sm = Inr sm1 \<and>
           mark_visited hash_url u sid2 st2 t2 sm1 = Inr sm2 \<and>
           visits_of hash_url u sm2 = [r] \<and>
           status r = st2 \<and> visited_at r = t2 \<and>
           session_id r = (case visits_of hash_url u sm of
                             [] \<Rightarrow> py_or sid1 (self_session_id sm)
                           | r0 # _ \<Rightarrow> session_id r0) \<and>
           (\<forall>s. visits_in hash_url u s sm2 = (if session_id r = Some s then [r] else [])) \<and>
           (\<forall>v s. length (visits_in hash_url v s sm2) \<le> 1)"
proof -
  obtain sm1 r1 where 1: "mark_visited hash_url u sid1 st1 t1 sm = Inr sm1"
    and pk1: "pk_ok (db sm1)" and v1: "visits_of hash_url u sm1 = [r1]"
    and s1: "session_id r1 = (case visits_of hash_url u sm of
                             [] \<Rightarrow> py_or sid1 (self_session_id sm)
                           | r0 # _ \<Rightarrow> session_id r0)"
    using mark_visited_first [OF assms] by blast
  obtain sm2 r2 where 2: "mark_visited hash_url u sid2 st2 t2 sm1 = Inr sm2"
    and pk2: "pk_ok (db sm2)" and v2: "visits_of hash_url u sm2 = [r2]"
    and st: "status r2 = st2" "visited_at r2 = t2"
    and s2: "session_id r2 = (case visits_of hash_url u sm1 of
                             [] \<Rightarrow> py_or sid2 (self_session_id sm1)
                           | r0 # _ \<Rightarrow> session_id r0)"
    using mark_visited_first [OF pk1] by blast
  have "session_id r2 = session_id r1" using s2 v1 by simp
  with s1 have s: "session_id r2 = (case visits_of hash_url u sm of
                             [] \<Rightarrow> py_or sid1 (self_session_id sm)
                           | r0 # _ \<Rightarrow> session_id r0)" by simp
  have a: "\<forall>s. visits_in hash_url u s sm2 = (if session_id r2 = Some s then [r2] else [])"
    by (simp add: visits_in_of v2)
  have b: "\<forall>v s. length (visits_in hash_url v s sm2) \<le> 1"
    using visits_in_le_one [OF pk2] by blast
  show ?thesis
    by (intro exI [of _ sm1] exI [of _ sm2] exI [of _ r2] conjI) (rule 1 2 v2 st s a b)+
qed

text \<open>The theorem at the empty store, with the sessions \<open>session_1\<close> and \<open>session_2\<close>.\<close>

theorem visited_unique_per_hash_witness:
  "pk_ok (db (new_manager empty_db)) \<and>
   (\<exists>sm1 sm2 r.
      mark_visited plain_key (str ''https://x.com/a'') (Some (str ''session_1'')) (str ''failed'') 1
        (new_manager empty_db) = Inr sm1 \<and>
      mark_visited plain_key (str ''https://x.com/a'') (Some (str ''session_2'')) (str ''success'') 2
        sm1 = Inr sm2 \<and>
      visits_of plain_key (str ''https://x.com/a'') sm2 = [r] \<and>
      status r = str ''success'' \<and> visited_at r = 2 \<and>
      session_id r = Some (str ''session_1'') \<and>
      visits_in plain_key (str ''https://x.com/a'') (str ''session_2'') sm2 = [])"
proof -
  have pk: "pk_ok (db (new_manager empty_db))"
    by (simp add: new_manager_def pk_ok_empty)
  have v0: "visits_of plain_key (str ''https://x.com/a'') (new_manager empty_db) = []"
    by (simp add: visits_of_def new_manager_def empty_db_def)
  have ne: "str ''session_1'' \<noteq> str ''session_2''" "str ''session_1'' \<noteq> []"
    by (simp_all add: str_def)
  from visited_unique_per_hash [OF pk, of plain_key "str ''https://x.com/a''"
      "Some (str ''session_1'')" "str ''failed''" 1 "Some (str ''session_2'')" "str ''success''" 2]
  obtain sm1 sm2 r where
    "mark_visited plain_key (str ''https://x.com/a'') (Some (str ''session_1'')) (str ''failed'') 1
        (new_manager empty_db) = Inr sm1"
    "mark_visited plain_key (str ''https://x.com/a'') (Some (str ''session_2'')) (str ''success'') 2
        sm1 = Inr sm2"
    "visits_of plain_key (str ''https://x.com/a'') sm2 = [r]"
    "status r = str ''success''" "visited_at r = 2"
    "session_id r = (case visits_of plain_key (str ''https://x.com/a'') (new_manager empty_db) of
                             [] \<Rightarrow> py_or (Some (str ''session_1'')) (self_session_id (new_manager empty_db))
                           | r0 # _ \<Rightarrow> session_id r0)"
    "\<forall>s. visits_in plain_key (str ''https://x.com/a'') s sm2 = (if session_id r = Some s then [r] else [])"
    by blast
  then show ?thesis
    using pk v0 ne by (auto simp: py_or_def truthy_def)
qed

text \<open>
  Claim C1 as stated fails: after \<open>mark_visited(u, session_1)\<close> and
  \<open>mark_visited(u, session_2)\<close> on the empty store, the table holds the single record of
  \<open>session_1\<close> and no record of \<open>u\<close> in \<open>session_2\<close>.
\<close>

theorem visited_scope_counterexample:
  "(case and_then
           (mark_visited plain_key (str ''https://x.com/a'') (Some (str ''session_1''))
              (str ''success'') 1 (new_manager empty_db))
           (mark_visited plain_key (str ''https://x.com/a'') (Some (str ''session_2''))
              (str ''success'') 2) of
      Inl e \<Rightarrow> False
    | Inr sm \<Rightarrow>
        visits_in plain_key (str ''https://x.com/a'') (str ''session_2'') sm = [] \<and>
        visited_urls (db sm) =
          [\<lparr>url_hash = str ''https://x.com/a'', url = str ''https://x.com/a'',
            session_id = Some (str ''session_1''), visited_at = 2, status = str ''success''\<rparr>])"
  by (simp add: and_then_def mark_visited_def insert_visit_def update_visit_def Let_def
      new_manager_def empty_db_def plain_key_def py_or_def truthy_def visits_in_def str_def)

subsection \<open>Ending a session twice\<close>



subsection \<open>Marking a URL twice\<close>

text \<open>
  Claim C6. In a store that satisfies the primary-key constraint, two successive calls
  \<open>mark_visited(url, session_id, s1)\<close> and \<open>mark_visited(url, session_id, s2)\<close> both
  return (the uniqueness violation of the second insertion is caught), and they leave
  exactly one visit record for the URL, with status \<open>s2\<close> and the timestamp of the second
  call. The record carries the URL itself, unless a record of another URL with the same
  digest was in the store before (a collision of the digest), which then stands for both.
\<close>

theorem mark_visited_idempotent:
  assumes "pk_ok (db sm)"
  shows "\<exists>sm1 sm2 r. mark_visited hash_url u sid s1 t1 sm = Inr sm1 \<and>
           mark_visited hash_url u sid s2 t2 sm1 = Inr sm2 \<and>
           visits_of hash_url u sm2 = [r] \<and> status r = s2 \<and> visited_at r = t2 \<and>
           url r = (case visits_of hash_url u sm of [] \<Rightarrow> u | r0 # _ \<Rightarrow> url r0)"
proof -
  obtain sm1 r1 where 1: "mark_visited hash_url u sid s1 t1 sm = Inr sm1"
    and pk1: "pk_ok (db sm1)" and v1: "visits_of hash_url u sm1 = [r1]"
    and u1: "url r1 = (case visits_of hash_url u sm of [] \<Rightarrow> u | r0 # _ \<Rightarrow> url r0)"
    using mark_visited_first [OF assms] by blast
  obtain sm2 r2 where 2: "mark_visited hash_url u sid s2 t2 sm1 = Inr sm2"
    and v2: "visits_of hash_url u sm2 = [r2]" and st2: "status r2 = s2" "visited_at r2 = t2"
    and u2: "url r2 = (case visits_of hash_url u sm1 of [] \<Rightarrow> u | r0 # _ \<Rightarrow> url r0)"
    using mark_visited_first [OF pk1] by blast
  have "url r2 = url r1" using u2 v1 by simp
  with u1 have "url r2 = (case visits_of hash_url u sm of [] \<Rightarrow> u | r0 # _ \<Rightarrow> url r0)"
    by simp
  with 1 2 v2 st2 show ?thesis by blast
qed

text \<open>The theorem at the empty store: the one record is that of the URL.\<close>

theorem mark_visited_idempotent_witness:
  "pk_ok (db (new_manager empty_db)) \<and>
   (\<exists>sm1 sm2 r.
      mark_visited plain_key (str ''https://x.com/a'') None (str ''failed'') 1
        (new_manager empty_db) = Inr sm1 \<and>
      mark_visited plain_key (str ''https://x.com/a'') None (str ''success'') 2 sm1 = Inr sm2 \<and>
      visits_of plain_key (str ''https://x.com/a'') sm2 = [r] \<and>
      status r = str ''success'' \<and> visited_at r = 2 \<and> url r = str ''https://x.com/a'')"
proof -
  have pk: "pk_ok (db (new_manager empty_db))"
    by (simp add: new_manager_def pk_ok_empty)
  have v0: "visits_of plain_key (str ''https://x.com/a'') (new_manager empty_db) = []"
    by (simp add: visits_of_def new_manager_def empty_db_def)
  from mark_visited_idempotent [OF pk, of plain_key "str ''https://x.com/a''" None
      "str ''failed''" 1 "str ''success''" 2]
  show ?thesis
    using pk by (simp add: v0)
qed

subsection \<open>The update branch of \<open>mark_visited\<close>\<close>

text \<open>
  Claim C10. When a record for the hash of the URL exists, \<open>mark_visited\<close> takes the update
  branch: the records with that hash get the new status and timestamp, and nothing else
  changes. The stored URLs, session ids and hashes of all records are as before, whatever
  session the call was issued under, and the other tables and the current session are
  untouched.
\<close>

theorem mark_visited_update_frame:
  assumes "is_visited hash_url u None sm"
  shows "\<exists>sm'. mark_visited hash_url u sid st now sm = Inr sm' \<and>
           visited_urls (db sm') =
             map (\<lambda>r. if url_hash r = hash_url u then r\<lparr>status := st, visited_at := now\<rparr> else r)
               (visited_urls (db sm)) \<and>
           map url (visited_urls (db sm')) = map url (visited_urls (db sm)) \<and>
           map session_id (visited_urls (db sm')) = map session_id (visited_urls (db sm)) \<and>
           map url_hash (visited_urls (db sm')) = map url_hash (visited_urls (db sm)) \<and>
           sessions (db sm') = sessions (db sm) \<and>
           scraped_items (db sm') = scraped_items (db sm) \<and>
           self_session_id sm' = self_session_id sm"
proof -
  from assms have "filter (\<lambda>r. url_hash r = hash_url u) (visited_urls (db sm)) \<noteq> []"
    by (auto simp: is_visited_def Let_def truthy_def)
  then have "hash_url u \<in> set (map url_hash (visited_urls (db sm)))"
    by (force simp: filter_empty_conv)
  then have "mark_visited hash_url u sid st now sm
               = Inr (sm\<lparr>db := update_visit (hash_url u) st now (db sm)\<rparr>)"
    by (simp add: mark_visited_present)
  then show ?thesis
    by (simp add: update_visit_def comp_def if_distrib [of url] if_distrib [of session_id]
        if_distrib [of url_hash] cong: if_cong)
qed

text \<open>
  The theorem at a store whose record was made in \<open>session_1\<close>, for a call issued under
  \<open>session_2\<close>.
\<close>

theorem mark_visited_update_frame_witness:
  "is_visited plain_key (str ''https://x.com/a'') None one_visit \<and>
   (\<exists>sm'. mark_visited plain_key (str ''https://x.com/a'') (Some (str ''session_2''))
             (str ''failed'') 2 one_visit = Inr sm' \<and>
          visited_urls (db sm') =
            map (\<lambda>r. if url_hash r = plain_key (str ''https://x.com/a'')
                      then r\<lparr>status := str ''failed'', visited_at := 2\<rparr> else r)
              (visited_urls (db one_visit)) \<and>
          map url (visited_urls (db sm')) = map url (visited_urls (db one_visit)) \<and>
          map session_id (visited_urls (db sm')) = map session_id (visited_urls (db one_visit)) \<and>
          map url_hash (visited_urls (db sm')) = map url_hash (visited_urls (db one_visit)) \<and>
          sessions (db sm') = sessions (db one_visit) \<and>
          scraped_items (db sm') = scraped_items (db one_visit) \<and>
          self_session_id sm' = self_session_id one_visit)"
proof -
  have v: "is_visited plain_key (str ''https://x.com/a'') None one_visit"
    by (simp add: is_visited_def one_visit_def new_manager_def empty_db_def plain_key_def truthy_def)
  show ?thesis
    by (rule conjI [OF v mark_visited_update_frame [OF v]])
qed

section \<open>Properties of the extraction engine\<close>

lemma card_first: "heuristically_extract_item nd (card ''/p/1'' ''First item'')
   = [(str ''link'', str ''/p/1''), (str ''title'', str ''First item'')]"
  by (simp add: card_def heuristically_extract_item_def find_tag_def find_all_def get_text_def
      strip_def py_space_def str_def price_rx_def is_digit_def digit_val_def py_or_def truthy_def)

lemma card_second: "heuristically_extract_item nd (card ''/p/2'' ''Second item'')
   = [(str ''link'', str ''/p/2''), (str ''title'', str ''Second item'')]"
  by (simp add: card_def heuristically_extract_item_def find_tag_def find_all_def get_text_def
      strip_def py_space_def str_def price_rx_def is_digit_def digit_val_def py_or_def truthy_def)

lemma card_third: "heuristically_extract_item nd (card ''/p/3'' ''Third item'')
   = [(str ''link'', str ''/p/3''), (str ''title'', str ''Third item'')]"
  by (simp add: card_def heuristically_extract_item_def find_tag_def find_all_def get_text_def
      strip_def py_space_def str_def price_rx_def is_digit_def digit_val_def py_or_def truthy_def)

lemma card_fourth_long: "heuristically_extract_item nd (card ''/p/4'' ''Fourth item'')
   = [(str ''link'', str ''/p/4''), (str ''title'', str ''Fourth item'')]"
  by (simp add: card_def heuristically_extract_item_def find_tag_def find_all_def get_text_def
      strip_def py_space_def str_def price_rx_def is_digit_def digit_val_def py_or_def truthy_def)

lemma card_fourth: "heuristically_extract_item nd (card ''/p/4'' ''4'') = [(str ''link'', str ''/p/4'')]"
  by (simp add: card_def heuristically_extract_item_def find_tag_def find_all_def get_text_def
      strip_def py_space_def str_def price_rx_def is_digit_def digit_val_def py_or_def truthy_def)

lemma card_fifth: "heuristically_extract_item nd (card ''/p/5'' ''5'') = [(str ''link'', str ''/p/5'')]"
  by (simp add: card_def heuristically_extract_item_def find_tag_def find_all_def get_text_def
      strip_def py_space_def str_def price_rx_def is_digit_def digit_val_def py_or_def truthy_def)

lemma sample_3_of_5: "sample_size cards_3_of_5 = 5" "valid_items nd cards_3_of_5 = 3"
  by (simp_all add: sample_size_def valid_items_def cards_3_of_5_def
      card_first card_second card_third card_fourth card_fifth)

lemma sample_4_of_5: "sample_size cards_4_of_5 = 5" "valid_items nd cards_4_of_5 = 4"
  by (simp_all add: sample_size_def valid_items_def cards_4_of_5_def
      card_first card_second card_third card_fourth_long card_fifth)

lemma valid_le_sample: "valid_items nd elements \<le> sample_size elements"
proof -
  have "valid_items nd elements \<le> length (take (sample_size elements) elements)"
    unfolding valid_items_def by (rule length_filter_le)
  then show ?thesis by (simp add: sample_size_def)
qed

lemma accepted_arith:
  "sample_accepted nd elements \<longleftrightarrow> 3 * sample_size elements < 5 * valid_items nd elements"
proof (cases "sample_size elements = 0")
  case True
  with valid_le_sample [of nd elements] have "valid_items nd elements = 0" by simp
  with True show ?thesis by (simp add: sample_accepted_def)
next
  case False
  then have pos: "0 < real (sample_size elements)" by simp
  have "sample_accepted nd elements \<longleftrightarrow>
          6 * real (sample_size elements) < 10 * real (valid_items nd elements)"
    unfolding sample_accepted_def using pos by (simp add: field_simps)
  also have "\<dots> \<longleftrightarrow> real (6 * sample_size elements) < real (10 * valid_items nd elements)"
    by simp
  also have "\<dots> \<longleftrightarrow> 6 * sample_size elements < 10 * valid_items nd elements"
    by (rule of_nat_less_iff)
  also have "\<dots> \<longleftrightarrow> 3 * sample_size elements < 5 * valid_items nd elements"
    by arith
  finally show ?thesis .
qed

subsection \<open>The comparison with 0.6 in doubles\<close>

text \<open>
  The source compares doubles. For every rounding to doubles that is monotone and has a
  relative error of at most \<open>2\<^sup>-\<^sup>5\<^sup>3\<close>, the rounded quotient of a sample of up to five
  members exceeds the rounded \<open>0.6\<close> exactly when the exact quotient exceeds \<open>6/10\<close>. So
  \<open>sample_accepted\<close>, which compares the exact numbers, decides as the source does.
\<close>

lemma double_comparison_exact:
  fixes rnd :: "real \<Rightarrow> real" and v s :: nat
  assumes mono: "\<And>x y. x \<le> y \<Longrightarrow> rnd x \<le> rnd y"
    and acc: "\<And>x. \<bar>rnd x - x\<bar> \<le> \<bar>x\<bar> / 2 ^ 53"
    and s: "0 < s" "s \<le> 5" and v: "v \<le> s"
  shows "rnd (real v / real s) > rnd (6 / 10) \<longleftrightarrow> real v / real s > 6 / 10"
proof
  assume "rnd (6 / 10) < rnd (real v / real s)"
  then have "\<not> real v / real s \<le> 6 / 10" using mono [of "real v / real s" "6 / 10"] by auto
  then show "6 / 10 < real v / real s" by simp
next
  assume gt: "6 / 10 < real v / real s"
  let ?a = "real v / real s"
  have sp: "0 < real s" using s by simp
  from gt sp have "6 * real s < 10 * real v" by (simp add: field_simps)
  then have "real (6 * s) < real (10 * v)" by simp
  then have "6 * s < 10 * v" by (simp only: of_nat_less_iff)
  then have "3 * s + 1 \<le> 5 * v" by arith
  then have "real (3 * s + 1) \<le> real (5 * v)" by (simp only: of_nat_le_iff)
  then have "3 * real s + 1 \<le> 5 * real v" by simp
  then have "(3 * real s + 1) / (5 * real s) \<le> (5 * real v) / (5 * real s)"
    using sp by (intro divide_right_mono) simp_all
  moreover have "(3 * real s + 1) / (5 * real s) = 3 / 5 + 1 / (5 * real s)"
    using sp by (simp add: add_divide_distrib)
  moreover have "(5 * real v) / (5 * real s) = ?a" by simp
  ultimately have 1: "3 / 5 + 1 / (5 * real s) \<le> ?a" by simp
  have "5 * real s \<le> 25" using s by simp
  then have 2: "1 / 25 \<le> 1 / (5 * real s)"
    using sp by (intro divide_left_mono) simp_all
  have lo: "16 / 25 \<le> ?a" using 1 2 by linarith
  have hi: "?a \<le> 1" using v sp by (simp add: field_simps)
  have "\<bar>rnd ?a - ?a\<bar> \<le> \<bar>?a\<bar> / 2 ^ 53" by (rule acc)
  moreover have "\<bar>?a\<bar> = ?a" using lo by simp
  ultimately have "?a - ?a / 2 ^ 53 \<le> rnd ?a" by linarith
  moreover have "?a / 2 ^ 53 \<le> 1 / 2 ^ 53" using hi by (simp add: divide_right_mono)
  ultimately have a: "16 / 25 - 1 / 2 ^ 53 \<le> rnd ?a" using lo by linarith
  have "\<bar>rnd (6 / 10) - 6 / 10\<bar> \<le> \<bar>6 / 10\<bar> / 2 ^ 53" by (rule acc)
  moreover have "\<bar>6 / 10 :: real\<bar> = 6 / 10" by simp
  ultimately have b: "rnd (6 / 10) \<le> 6 / 10 + (6 / 10) / 2 ^ 53" by linarith
  have "(6 / 10 :: real) + (6 / 10) / 2 ^ 53 < 16 / 25 - 1 / 2 ^ 53" by simp
  with a b show "rnd (6 / 10) < rnd ?a" by linarith
qed

lemma sample_accepted_doubles:
  fixes rnd :: "real \<Rightarrow> real"
  assumes "\<And>x y. x \<le> y \<Longrightarrow> rnd x \<le> rnd y"
    and "\<And>x. \<bar>rnd x - x\<bar> \<le> \<bar>x\<bar> / 2 ^ 53"
    and "elements \<noteq> []"
  shows "rnd (real (valid_items nd elements) / real (sample_size elements)) > rnd (6 / 10)
           \<longleftrightarrow> sample_accepted nd elements"
  unfolding sample_accepted_def
proof (rule double_comparison_exact)
  show "0 < sample_size elements" using assms(3) by (simp add: sample_size_def)
  show "sample_size elements \<le> 5" by (simp add: sample_size_def)
  show "valid_items nd elements \<le> sample_size elements" by (rule valid_le_sample)
qed (use assms in auto)

subsection \<open>The acceptance of a candidate group\<close>

text \<open>
  Claim C3, as amended. In automatic list detection a candidate group is accepted exactly
  when strictly more than 60% of its sample (the first members, up to 5) yield at least 2
  fields: three times the sample size must be below five times the number of valid
  members. For a sample of 5 this asks for at least 4 valid members. The members of an
  accepted group are all extracted; a rejected group contributes nothing.
\<close>

theorem sample_accepted_strict:
  "(sample_accepted nd elements \<longleftrightarrow> 3 * sample_size elements < 5 * valid_items nd elements) \<and>
   (sample_size elements = 5 \<longrightarrow> (sample_accepted nd elements \<longleftrightarrow> 4 \<le> valid_items nd elements)) \<and>
   extracted_set nd elements =
     (if 3 * sample_size elements < 5 * valid_items nd elements
      then filter any_values (map (heuristically_extract_item nd) elements) else [])"
  using accepted_arith [of nd elements] by (auto simp: extracted_set_def)

text \<open>The theorem at five cards of which four are valid: the sample is accepted.\<close>

theorem sample_accepted_strict_witness:
  "sample_size cards_4_of_5 = 5 \<and> valid_items ascii_only cards_4_of_5 = 4 \<and>
   sample_accepted ascii_only cards_4_of_5"
  using sample_accepted_strict [of ascii_only cards_4_of_5] sample_4_of_5
  by simp

text \<open>
  Claim C3 as stated fails: five elements of one class signature form the only candidate
  of their document, exactly 3 of the 5 sampled members yield 2 fields, and the candidate
  is rejected.
\<close>

theorem sample_60_percent_counterexample:
  "candidates soup_3_of_5 = [cards_3_of_5] \<and>
   sample_size cards_3_of_5 = 5 \<and>
   valid_items ascii_only cards_3_of_5 = 3 \<and>
   \<not> sample_accepted ascii_only cards_3_of_5 \<and>
   extracted_set ascii_only cards_3_of_5 = []"
proof -
  have "candidates soup_3_of_5 = [cards_3_of_5]" by code_simp
  moreover have "\<not> sample_accepted ascii_only cards_3_of_5"
    by (simp add: sample_accepted_def sample_3_of_5)
  ultimately show ?thesis
    by (simp add: sample_3_of_5 extracted_set_def)
qed

subsection \<open>The price of an item\<close>

text \<open>
  Claim C4 does not hold of the code. The character class of the price pattern holds the
  digits beside the currency symbols, so a currency symbol is not required: from an
  element whose text is the bare number \<open>12.34\<close> the field \<open>price = 12.34\<close> is extracted.
  From the text \<open>$12.34\<close> the price \<open>$12.34\<close> is extracted, as the claim says.
\<close>

theorem price_without_currency:
  "heuristically_extract_item nd (Tag ''div'' [] None [Text (str ''12.34'')])
     = [(str ''price'', str ''12.34'')] \<and>
   heuristically_extract_item nd (Tag ''div'' [] None [Text (str ''$12.34'')])
     = [(str ''price'', str ''$12.34'')]"
  by (simp add: heuristically_extract_item_def find_tag_def find_all_def get_text_def
      strip_def py_space_def str_def price_rx_def is_digit_def digit_val_def)

subsection \<open>Empty input\<close>

text \<open>
  Claim C8. For the falsy HTML inputs, \<open>None\<close> and the empty string, and for every
  configuration, \<open>extract\<close> returns the empty dictionary. The result is the same for all
  collaborators, also for a parser and a selector engine that raise: no strategy runs and
  no error is raised.
\<close>

theorem extract_falsy_html:
  "extractor_extract e None cfg = Inr (RDict []) \<and>
   extractor_extract e (Some []) cfg = Inr (RDict [])"
  by (simp add: extractor_extract_def)

section \<open>Properties of the asynchronous scraper\<close>

lemma hashes_start_session:
  "map url_hash (visited_urls (db (snd (start_session stamp start meta now sm))))
     = map url_hash (visited_urls (db sm))"
  by (simp add: start_session_def insert_session_def Let_def split: sum.splits)

lemma hashes_end_session:
  "map url_hash (visited_urls (db (end_session sid now sm))) = map url_hash (visited_urls (db sm))"
  by (simp add: end_session_def update_session_completed_def split: option.splits)

lemma hashes_save_item:
  "map url_hash (visited_urls (db (save_item u data sid now sm))) = map url_hash (visited_urls (db sm))"
  by (simp add: save_item_def Let_def)

lemma hashes_mark_visited:
  assumes "mark_visited h u sid st now sm = Inr sm'"
  shows "set (map url_hash (visited_urls (db sm))) \<subseteq> set (map url_hash (visited_urls (db sm')))"
  using assms
  by (cases "h u \<in> set (map url_hash (visited_urls (db sm)))")
     (auto simp: mark_visited_fresh mark_visited_present update_visit_def hash_comp_update
           simp del: set_map)

lemma later_keeps_hashes:
  assumes "later_state h sm sm'"
  shows "set (map url_hash (visited_urls (db sm))) \<subseteq> set (map url_hash (visited_urls (db sm')))"
  using assms
proof (induction rule: later_state.induct)
  case (marked sm sm1 u sid st now sm2)
  then show ?case using hashes_mark_visited by blast
qed (simp_all add: hashes_start_session hashes_end_session hashes_save_item new_manager_def
      del: set_map)

lemma is_visited_global:
  "is_visited h u None sm \<longleftrightarrow> h u \<in> set (map url_hash (visited_urls (db sm)))"
proof -
  have "filter (\<lambda>r. url_hash r = h u) (visited_urls (db sm)) \<noteq> [] \<longleftrightarrow>
        h u \<in> set (map url_hash (visited_urls (db sm)))"
    by (force simp: filter_empty_conv)
  then show ?thesis by (simp add: is_visited_def Let_def truthy_def)
qed

text \<open>
  The primary-key constraint of \<open>visited_urls\<close> holds in the empty database and is kept by
  every operation of the store: it is an invariant.
\<close>

lemma pk_start_session: "pk_ok (db sm) \<Longrightarrow> pk_ok (db (snd (start_session stamp start meta now sm)))"
  by (simp add: pk_ok_def hashes_start_session)

lemma pk_end_session: "pk_ok (db sm) \<Longrightarrow> pk_ok (db (end_session sid now sm))"
  by (simp add: pk_ok_def hashes_end_session)

lemma pk_save_item: "pk_ok (db sm) \<Longrightarrow> pk_ok (db (save_item u data sid now sm))"
  by (simp add: pk_ok_def hashes_save_item)

lemma pk_clear_session: "pk_ok (db sm) \<Longrightarrow> pk_ok (db (clear_session sid sm))"
  by (simp add: pk_ok_def clear_session_def Let_def distinct_map_filter)

lemma pk_clear_all: "pk_ok (db (clear_all sm))"
  by (simp add: pk_ok_def clear_all_def)

lemma later_keeps_pk:
  assumes "later_state h sm sm'" and "pk_ok (db sm)"
  shows "pk_ok (db sm')"
  using assms
proof (induction rule: later_state.induct)
  case (marked sm sm1 u sid st now sm2)
  then show ?case using mark_visited_pk by blast
qed (simp_all add: pk_start_session pk_end_session pk_save_item new_manager_def)

lemma second_run_visits: "visited_urls (db (second_run sm)) = visited_urls (db sm)"
  by (simp add: second_run_def start_session_def insert_session_def new_manager_def
      end_session_def update_session_completed_def Let_def split: sum.splits option.splits)

lemma second_run_current:
  "self_session_id (second_run sm) = Some (str ''session_'' @ str ''20240102_000000'')"
  by (simp add: second_run_def start_session_def Let_def split: sum.splits)

subsection \<open>The visited check before a fetch\<close>

text \<open>
  Claim C9. \<open>scrape\<close> calls \<open>is_visited\<close> without a session id, so the check is global:
  once a URL has been marked visited, under any session, then in every state that the
  store reaches later without deleting records (sessions started and ended, the database
  opened again by a later run), \<open>scrape\<close> returns the record with status \<open>skipped\<close> and
  reason \<open>already_visited\<close> and leaves the scraper as it was: nothing is fetched and
  nothing is written.
\<close>

theorem scrape_skips_visited_globally:
  assumes "mark_visited (digest c) u sid st t sm0 = Inr sm1"
      and "later_state (digest c) sm1 sm"
      and "manager sc = Some sm"
  shows "scrape c now u sel sc =
           (Inr (RDict [(str ''url'', u), (str ''status'', str ''skipped''),
                        (str ''reason'', str ''already_visited'')]), sc)"
proof -
  have "digest c u \<in> set (map url_hash (visited_urls (db sm1)))"
    using assms(1) by (rule mark_visited_records)
  then have "digest c u \<in> set (map url_hash (visited_urls (db sm)))"
    using later_keeps_hashes [OF assms(2)] by blast
  then have "is_visited (digest c) u None sm"
    by (simp only: is_visited_global)
  then show ?thesis
    using assms(3) by (simp add: scrape_def)
qed

text \<open>
  The theorem for a URL marked in the session of a first run and scraped in the session
  of a second run.
\<close>

theorem scrape_skips_visited_globally_witness:
  "\<exists>sm1. mark_visited (digest offline) (str ''https://x.com/a'') None (str ''success'') 2 first_run
            = Inr sm1 \<and>
         later_state (digest offline) sm1 (second_run sm1) \<and>
         map session_id (visited_urls (db (second_run sm1))) = [Some (str ''session_20240101_000000'')] \<and>
         self_session_id (second_run sm1) = Some (str ''session_20240102_000000'') \<and>
         scrape offline 5 (str ''https://x.com/a'') None
           \<lparr>self_config = empty_config, manager = Some (second_run sm1), pipeline = (), fetched = []\<rparr>
         = (Inr (RDict [(str ''url'', str ''https://x.com/a''), (str ''status'', str ''skipped''),
                        (str ''reason'', str ''already_visited'')]),
            \<lparr>self_config = empty_config, manager = Some (second_run sm1), pipeline = (), fetched = []\<rparr>)"
proof -
  let ?u = "str ''https://x.com/a''"
  let ?sm1 = "first_run\<lparr>db := (db first_run)\<lparr>visited_urls :=
       [\<lparr>url_hash = ?u, url = ?u, session_id = Some (str ''session_20240101_000000''),
         visited_at = 2, status = str ''success''\<rparr>]\<rparr>\<rparr>"
  have m: "mark_visited (digest offline) ?u None (str ''success'') 2 first_run = Inr ?sm1"
    by (simp add: mark_visited_def insert_visit_def first_run_def start_session_def
        insert_session_def new_manager_def empty_db_def offline_def plain_key_def py_or_def
        truthy_def Let_def str_def)
  have l: "later_state (digest offline) ?sm1 (second_run ?sm1)"
    unfolding second_run_def
    by (intro later_state.started later_state.reopened later_state.ended later_state.same)
  have v: "visited_urls (db (second_run ?sm1)) = visited_urls (db ?sm1)"
    by (rule second_run_visits)
  have s: "map session_id (visited_urls (db (second_run ?sm1))) = [Some (str ''session_20240101_000000'')]"
    unfolding v by simp
  have s': "self_session_id (second_run ?sm1) = Some (str ''session_20240102_000000'')"
    unfolding second_run_current by (simp add: str_def)
  have sc: "scrape offline 5 ?u None
           \<lparr>self_config = empty_config, manager = Some (second_run ?sm1), pipeline = (), fetched = []\<rparr>
         = (Inr (RDict [(str ''url'', ?u), (str ''status'', str ''skipped''),
                        (str ''reason'', str ''already_visited'')]),
            \<lparr>self_config = empty_config, manager = Some (second_run ?sm1), pipeline = (), fetched = []\<rparr>)"
    by (rule scrape_skips_visited_globally [OF m l]) simp
  show ?thesis
    by (rule exI [of _ ?sm1], intro conjI) (rule m l s s' sc)+
qed

subsection \<open>Pagination by URL pattern\<close>

text \<open>
  Claim C5 does not hold of the code. The replacement text is always \<open>page=\<close> and the
  next number, and every match of the pattern is replaced. With the configured pattern
  \<open>p=(\d+)\<close> the URL \<open>https://x.com/list?p=3\<close> becomes \<open>https://x.com/list?page=4\<close>, not
  \<open>https://x.com/list?p=4\<close>; with the default pattern the URL
  \<open>https://x.com/list?page=3&perpage=20\<close> becomes
  \<open>https://x.com/list?page=4&perpage=4\<close>. The example of the claim holds: \<open>page=3\<close>
  becomes \<open>page=4\<close> and then \<open>page=5\<close>, and a URL that the pattern does not match has no
  next page.
\<close>

theorem pattern_replacement_fixed:
  "find_next_page c (str ''https://x.com/list?p=3'')
     \<lparr>ptype = Some (str ''url_pattern''), selector = None,
      pattern = Some (Grouped (lits ''p='') [(Digit, Plus)] []), max_pages = None\<rparr> sc
     = (Inr (Some (str ''https://x.com/list?page=4'')), sc) \<and>
   next_by_pattern nd page_rx (str ''https://x.com/list?page=3&perpage=20'')
     = Inr (Some (str ''https://x.com/list?page=4&perpage=4'')) \<and>
   next_by_pattern nd page_rx (str ''https://x.com/list?page=3'')
     = Inr (Some (str ''https://x.com/list?page=4'')) \<and>
   next_by_pattern nd page_rx (str ''https://x.com/list?page=4'')
     = Inr (Some (str ''https://x.com/list?page=5'')) \<and>
   next_by_pattern nd page_rx (str ''https://x.com/list'') = Inr None"
proof -
  have "str ''url_pattern'' \<noteq> str ''next_button''" by (simp add: str_def)
  moreover have "next_by_pattern (nd_table (engine c)) (Grouped (lits ''p='') [(Digit, Plus)] [])
          (str ''https://x.com/list?p=3'') = Inr (Some (str ''https://x.com/list?page=4''))"
    by (simp add: next_by_pattern_def lits_def str_def is_digit_def digit_val_def re_sub_def
       py_int_def int_space_def py_space_def py_str_int_def int_max_str_digits_def)
  ultimately have 1: "find_next_page c (str ''https://x.com/list?p=3'')
     \<lparr>ptype = Some (str ''url_pattern''), selector = None,
      pattern = Some (Grouped (lits ''p='') [(Digit, Plus)] []), max_pages = None\<rparr> sc
     = (Inr (Some (str ''https://x.com/list?page=4'')), sc)"
    by (simp add: find_next_page_def)
  have 2: "next_by_pattern nd page_rx (str ''https://x.com/list?page=3&perpage=20'')
     = Inr (Some (str ''https://x.com/list?page=4&perpage=4''))"
    by (simp add: next_by_pattern_def page_rx_def lits_def str_def is_digit_def digit_val_def
       re_sub_def py_int_def int_space_def py_space_def py_str_int_def int_max_str_digits_def)
  have 3: "next_by_pattern nd page_rx (str ''https://x.com/list?page=3'')
     = Inr (Some (str ''https://x.com/list?page=4''))"
    by (simp add: next_by_pattern_def page_rx_def lits_def str_def is_digit_def digit_val_def
       re_sub_def py_int_def int_space_def py_space_def py_str_int_def int_max_str_digits_def)
  have 4: "next_by_pattern nd page_rx (str ''https://x.com/list?page=4'')
     = Inr (Some (str ''https://x.com/list?page=5''))"
    by (simp add: next_by_pattern_def page_rx_def lits_def str_def is_digit_def digit_val_def
       re_sub_def py_int_def int_space_def py_space_def py_str_int_def int_max_str_digits_def)
  have 5: "next_by_pattern nd page_rx (str ''https://x.com/list'') = Inr None"
    by (simp add: next_by_pattern_def page_rx_def lits_def str_def is_digit_def digit_val_def
       re_sub_def py_int_def int_space_def py_space_def py_str_int_def int_max_str_digits_def)
  from 1 2 3 4 5 show ?thesis by blast
qed

section \<open>Properties of the browser scraper\<close>

declare scrape_loop.simps [simp del]

lemma entries_single: "entries_of e et cfg site p p = page_entries (extract_data e et cfg (content (site p)))"
  by (simp add: entries_of_def)

lemma entries_split:
  assumes "p < k"
  shows "entries_of e et cfg site p k
           = page_entries (extract_data e et cfg (content (site p))) @ entries_of e et cfg site (Suc p) k"
proof -
  have "[p..<Suc k] = p # [Suc p..<Suc k]"
    using assms by (simp add: upt_conv_Cons)
  then show ?thesis by (simp add: entries_of_def)
qed

lemma loop_stops_at_limit:
  assumes "max_items cfg = Some m" and "0 < m"
    and "p \<le> k" and "int k \<le> mp"
    and "\<forall>j. p \<le> j \<and> j < k \<longrightarrow>
           length (A @ entries_of e et cfg site p j) < nat m \<and> next_button cfg (site j)"
    and "nat m \<le> length (A @ entries_of e et cfg site p k)"
    and "1 < mp \<or> has_selector cfg \<or> p = k"
  shows "scrape_loop e et cfg site mp p A n
           = \<lparr>items = take (nat m) (A @ entries_of e et cfg site p k), total_pages = k,
              clicks = n + (k - p)\<rparr>"
  using assms(3,5,6,7)
proof (induction "k - p" arbitrary: p A n)
  case 0
  then have pk: "p = k" by simp
  have "limit_hit cfg (length (A @ page_entries (extract_data e et cfg (content (site k))))) = Some m"
    using assms(1,2) "0.prems"(3) pk by (simp add: limit_hit_def entries_single)
  then show ?case
    using assms(2,4) pk
    by (simp add: scrape_loop.simps [of e et cfg site mp k] Let_def slice_to_def entries_single)
next
  case (Suc d)
  then have lt: "p < k" by simp
  let ?A' = "A @ page_entries (extract_data e et cfg (content (site p)))"
  have here: "length ?A' < nat m" "next_button cfg (site p)"
    using Suc.prems(2) lt entries_single [of e et cfg site p] by auto
  then have nohit: "limit_hit cfg (length ?A') = None"
    using assms(1,2) by (simp add: limit_hit_def)
  have sp: "should_paginate cfg mp"
    using Suc.prems(4) lt by (auto simp: should_paginate_def)
  have step: "scrape_loop e et cfg site mp p A n = scrape_loop e et cfg site mp (Suc p) ?A' (Suc n)"
    using assms(4) lt nohit sp here(2)
    by (simp add: scrape_loop.simps [of e et cfg site mp p] Let_def)
  have d: "d = k - Suc p" using Suc.hyps(2) by simp
  have le: "Suc p \<le> k" using lt by simp
  have inv: "\<forall>j. Suc p \<le> j \<and> j < k \<longrightarrow>
           length (?A' @ entries_of e et cfg site (Suc p) j) < nat m \<and> next_button cfg (site j)"
  proof (intro allI impI)
    fix j assume j: "Suc p \<le> j \<and> j < k"
    then have pj: "p < j" by simp
    have "length (A @ entries_of e et cfg site p j) < nat m \<and> next_button cfg (site j)"
      using Suc.prems(2) j by simp
    then show "length (?A' @ entries_of e et cfg site (Suc p) j) < nat m \<and> next_button cfg (site j)"
      by (simp add: entries_split [OF pj, of e et cfg site])
  qed
  have fin: "nat m \<le> length (?A' @ entries_of e et cfg site (Suc p) k)"
    using Suc.prems(3) entries_split [OF lt, of e et cfg site] by simp
  have cond: "1 < mp \<or> has_selector cfg \<or> Suc p = k"
    using Suc.prems(4) lt by auto
  have "scrape_loop e et cfg site mp (Suc p) ?A' (Suc n)
          = \<lparr>items = take (nat m) (?A' @ entries_of e et cfg site (Suc p) k), total_pages = k,
             clicks = Suc n + (k - Suc p)\<rparr>"
    by (rule Suc.hyps(1) [OF d le inv fin cond])
  then show ?case
    using step entries_split [OF lt, of e et cfg site] lt by simp
qed


subsection \<open>The item limit\<close>

text \<open>
  Claim C7. Let \<open>max_items\<close> be configured as a positive number \<open>m\<close>, and let page \<open>k\<close> be
  the first page with which the accumulated results reach \<open>m\<close> entries, every earlier
  page showing a next button and \<open>k\<close> being within the page limit. Then the crawl ends at
  page \<open>k\<close>: it returns the first \<open>m\<close> accumulated entries, exactly \<open>m\<close> of them, with
  \<open>total_pages = k\<close>, after \<open>k - 1\<close> clicks on a next button, so that no page beyond
  page \<open>k\<close> is loaded.
\<close>

theorem max_items_stops_crawl:
  assumes "max_items cfg = Some m" and "0 < m"
    and "1 \<le> k" and "int k \<le> max_pages_of cfg"
    and "\<forall>j. 1 \<le> j \<and> j < k \<longrightarrow>
           length (entries_of e et cfg site 1 j) < nat m \<and> next_button cfg (site j)"
    and "nat m \<le> length (entries_of e et cfg site 1 k)"
  shows "universal_scrape e et cfg site
           = \<lparr>items = take (nat m) (entries_of e et cfg site 1 k), total_pages = k,
              clicks = k - 1\<rparr> \<and>
         length (items (universal_scrape e et cfg site)) = nat m"
proof -
  have c: "1 < max_pages_of cfg \<or> has_selector cfg \<or> 1 = k"
    using assms(3,4) by auto
  have "scrape_loop e et cfg site (max_pages_of cfg) 1 [] 0
          = \<lparr>items = take (nat m) ([] @ entries_of e et cfg site 1 k), total_pages = k,
             clicks = 0 + (k - 1)\<rparr>"
    using assms(1,2,3,4) _ _ c
    by (rule loop_stops_at_limit) (use assms(5,6) in simp_all)
  then show ?thesis
    using assms(6) by (simp add: universal_scrape_def)
qed

lemma card_some_item:
  "href \<noteq> [] \<Longrightarrow>
   heuristically_extract_item nd (card href ''Some item'')
     = [(str ''link'', str href), (str ''title'', str ''Some item'')]"
  by (simp add: card_def heuristically_extract_item_def find_tag_def find_all_def get_text_def
      strip_def py_space_def price_rx_def is_digit_def digit_val_def py_or_def truthy_def)
     (simp add: str_def py_space_def)

lemma ten_candidates: "candidates ten_cards = [card_list]"
  by code_simp

lemma ten_sample: "valid_items nd card_list = 5" "sample_size card_list = 5"
  by (simp_all add: valid_items_def sample_size_def card_list_def card_some_item)

lemma ten_accepted: "sample_accepted nd card_list"
  by (simp add: sample_accepted_def ten_sample)

lemma ten_extracted: "extracted_set nd card_list = ten_items"
  by (simp add: extracted_set_def ten_accepted)
     (simp add: card_list_def card_some_item ten_items_def any_values_def str_def)

lemma ten_score: "score (\<lambda>x. x) ten_items = 20"
  by (simp add: score_def ten_items_def)

lemma ten_detected: "detect_and_extract_list cards_engine ten_cards = Some ten_items"
proof -
  have "ten_items \<noteq> []" by (simp add: ten_items_def)
  then show ?thesis
    by (simp add: detect_and_extract_list_def ten_candidates cards_engine_def ten_extracted
        ten_score Let_def)
qed

lemma ten_page_data:
  assumes "selectors cfg = None" "cfg_fields cfg = None" "\<not> save_html cfg"
  shows "extract_data cards_engine et cfg (str ''<html>'') = \<lparr>pd_items = Some ten_items, pd_fields = []\<rparr>"
proof -
  have p: "parse_html cards_engine (str ''<html>'') = Inr ten_cards"
    by (simp add: cards_engine_def)
  have n: "str ''<html>'' \<noteq> []" by (simp add: str_def)
  have "extractor_extract cards_engine (Some (str ''<html>'')) (Some cfg) = Inr (RList ten_items)"
    using assms n by (simp add: extractor_extract_def p ten_detected truthy_dict_def Let_def)
  then show ?thesis using assms by (simp add: extract_data_def)
qed

lemma ten_entries:
  assumes "selectors cfg = None" "cfg_fields cfg = None" "\<not> save_html cfg"
  shows "page_entries (extract_data cards_engine et cfg (content (three_pages j))) = map EItem ten_items"
proof -
  have "ten_items \<noteq> []" by (simp add: ten_items_def)
  then show ?thesis
    by (simp add: three_pages_def ten_page_data [OF assms] page_entries_def)
qed

lemma ten_length: "length ten_items = 10"
  by (simp add: ten_items_def)

lemma plain_config:
  "selectors five_items = None" "cfg_fields five_items = None" "\<not> save_html five_items"
  "selectors fifteen_items = None" "cfg_fields fifteen_items = None" "\<not> save_html fifteen_items"
  "max_items five_items = Some 5" "max_items fifteen_items = Some 15"
  "max_pages_of five_items = 50" "max_pages_of fifteen_items = 50"
  by (simp_all add: five_items_def fifteen_items_def empty_config_def max_pages_of_def)

lemma ten_entries_range:
  assumes "selectors cfg = None" "cfg_fields cfg = None" "\<not> save_html cfg"
  shows "entries_of cards_engine et cfg three_pages p k
           = concat (replicate (Suc k - p) (map EItem ten_items))"
proof -
  have "map (\<lambda>j. map EItem ten_items) [p..<Suc k] = replicate (Suc k - p) (map EItem ten_items)"
    by (auto simp: map_replicate_const)
  then show ?thesis
    by (simp add: entries_of_def ten_entries [OF assms])
qed

lemma ten_entries_length:
  assumes "selectors cfg = None" "cfg_fields cfg = None" "\<not> save_html cfg"
  shows "length (entries_of cards_engine et cfg three_pages p k) = (Suc k - p) * 10"
  by (simp add: ten_entries_range [OF assms] length_concat sum_list_replicate ten_length)

text \<open>
  The theorem at a source of three pages with ten items each. With \<open>max_items = 5\<close> the
  crawl returns the first five items of the first page and clicks no next button; with
  \<open>max_items = 15\<close> it returns the ten items of the first page and five of the second,
  after one click.
\<close>

theorem max_items_stops_crawl_witness:
  "max_items five_items = Some 5 \<and>
   length (entries_of cards_engine no_text five_items three_pages 1 1) = 10 \<and>
   universal_scrape cards_engine no_text five_items three_pages
     = \<lparr>items = map EItem (take 5 ten_items), total_pages = 1, clicks = 0\<rparr> \<and>
   max_items fifteen_items = Some 15 \<and>
   length (entries_of cards_engine no_text fifteen_items three_pages 1 1) = 10 \<and>
   next_button fifteen_items (three_pages 1) \<and>
   universal_scrape cards_engine no_text fifteen_items three_pages
     = \<lparr>items = map EItem (ten_items @ take 5 ten_items), total_pages = 2, clicks = 1\<rparr>"
proof -
  note r5 = ten_entries_range [OF plain_config(1,2,3), of no_text]
  note r15 = ten_entries_range [OF plain_config(4,5,6), of no_text]
  note l5 = ten_entries_length [OF plain_config(1,2,3), of no_text]
  note l15 = ten_entries_length [OF plain_config(4,5,6), of no_text]
  have nb: "next_button fifteen_items (three_pages 1)"
    by (simp add: next_button_def three_pages_def)
  have a: "universal_scrape cards_engine no_text five_items three_pages
     = \<lparr>items = take (nat 5) (entries_of cards_engine no_text five_items three_pages 1 1),
        total_pages = 1, clicks = 1 - 1\<rparr> \<and>
     length (items (universal_scrape cards_engine no_text five_items three_pages)) = nat 5"
    by (rule max_items_stops_crawl [where m = 5 and k = 1])
       (simp_all add: plain_config l5)
  have b: "universal_scrape cards_engine no_text fifteen_items three_pages
     = \<lparr>items = take (nat 15) (entries_of cards_engine no_text fifteen_items three_pages 1 2),
        total_pages = 2, clicks = 2 - 1\<rparr> \<and>
     length (items (universal_scrape cards_engine no_text fifteen_items three_pages)) = nat 15"
  proof (rule max_items_stops_crawl [where m = 15 and k = 2])
    show "\<forall>j. 1 \<le> j \<and> j < 2 \<longrightarrow>
        length (entries_of cards_engine no_text fifteen_items three_pages 1 j) < nat 15 \<and>
        next_button fifteen_items (three_pages j)"
    proof (intro allI impI)
      fix j :: nat assume "1 \<le> j \<and> j < 2"
      then have "j = 1" by simp
      then show "length (entries_of cards_engine no_text fifteen_items three_pages 1 j) < nat 15 \<and>
        next_button fifteen_items (three_pages j)"
        using nb by (simp add: l15)
    qed
  qed (simp_all add: plain_config l15)
  have t5: "take (nat 5) (entries_of cards_engine no_text five_items three_pages 1 1)
              = map EItem (take 5 ten_items)"
    by (simp add: r5 take_map)
  have "entries_of cards_engine no_text fifteen_items three_pages 1 2
          = map EItem ten_items @ map EItem ten_items"
    by (simp add: r15 numeral_2_eq_2)
  then have t15: "take (nat 15) (entries_of cards_engine no_text fifteen_items three_pages 1 2)
              = map EItem (ten_items @ take 5 ten_items)"
    by (simp add: ten_length take_map)
  show ?thesis
    using a b nb unfolding t5 t15 by (simp add: plain_config l5 l15)
qed


end
